theory Spec2Isabelle
  imports Main "HOL-Library.Word"
begin

unbundle bit_operations_syntax

section \<open>Data model of wire.go\<close>

text \<open>
  A Go \<open>[]byte\<close> is a list of 8-bit words, and so is a Go \<open>string\<close> that is compared
  with bytes or looked up as a dictionary key (\<open>bytes_of\<close> writes one from a literal); the
  text of an error is an Isabelle \<open>string\<close>. Go's \<open>int\<close> is taken at 64 bits and modelled
  as \<open>int\<close>: every \<open>int\<close> computed here is a buffer length, a uint32 or a quotient
  of an int64, far below \<open>2 ^ 63\<close>.
\<close>

type_synonym byte = "8 word"

definition bytes_of :: "string \<Rightarrow> byte list" where
  "bytes_of s = map of_char s"

text \<open>
  Abnormal ends of a handler call: the run-time panics of Go that this file can raise, and
  last a send on a channel that was never made, which blocks its goroutine for ever.
\<close>

datatype abort =
    IndexOutOfRange
  | SliceBoundsOutOfRange
  | NilFuncCall
  | MakeSliceLenOutOfRange
  | SendOnClosedChannel
  | CloseOfClosedChannel
  | CloseOfNilChannel
  | BlockedOnNilChannel

definition seq :: "abort + 'a \<Rightarrow> ('a \<Rightarrow> abort + 'b) \<Rightarrow> abort + 'b" where
  "seq m f = (case m of Inl e \<Rightarrow> Inl e | Inr x \<Rightarrow> f x)"

text \<open>The values a bencode decoder stores in a \<open>map[string]interface{}\<close>.\<close>

datatype bvalue =
    BInt int
  | BString "byte list"
  | BList "bvalue list"
  | BDict "(byte list \<times> bvalue) list"

text \<open>Type assertions \<open>v.(int64)\<close> and \<open>v.(map[string]interface{})\<close> on a looked-up key.\<close>

fun as_int64 :: "bvalue option \<Rightarrow> int option" where
  "as_int64 (Some (BInt n)) = Some n"
| "as_int64 _ = None"

fun as_map :: "bvalue option \<Rightarrow> (byte list \<times> bvalue) list option" where
  "as_map (Some (BDict m)) = Some m"
| "as_map _ = None"

record File =
  Path :: "byte list"
  file_Size :: int

record MetadataResult =
  Error :: "string option"
  result_Hash :: "byte list"
  Name :: "byte list"
  result_Size :: int
  Files :: "File list"
  Pieces :: "bvalue option"

record Event =
  Type :: int
  Reason :: string
  Result :: "MetadataResult option"

text \<open>
  The closures that \<open>process\<close> installs as \<open>Handler\<close>, one constructor per closure: the two
  function literals of \<open>handleHandshake\<close> (the inner one captures \<open>length\<close>) and the method
  values \<open>p.handleHead\<close> and \<open>p.handleBody\<close>.
\<close>

datatype DataHandler =
    H_HandshakeLength
  | H_HandshakeBody int
  | H_Head
  | H_Body

datatype chan_state = ChanNil | ChanOpen | ChanClosed

text \<open>
  The channels \<open>output\<close> (field \<open>outputs\<close>) and \<open>event\<close> are unbuffered; the model
  keeps the sequence of values sent on each, and for \<open>event\<close> whether the channel is nil,
  open or closed. A send on an open channel is taken to meet its receiver (the loop of
  \<open>Pipe\<close>).
\<close>

record Processor =
  Hash :: "byte list"
  Data :: "byte list list"
  Size :: int
  Handler :: "DataHandler option"
  HandlerSize :: int
  utmetadata :: int
  metadata :: "byte list option list"
  metadataSize :: int
  pieceLength :: int
  recvedPiece :: int
  outputs :: "byte list list"
  event :: "Event list"
  event_chan :: chan_state

text \<open>The Go values handed to the bencode encoder in this file.\<close>

datatype govalue =
    GoInt int
  | GoMap "(string \<times> govalue) list"
  | GoProcessor Processor

text \<open>
  What wire.go calls and does not define: the bencode library
  (\<open>EncodeBytes\<close> with its error dropped as the callers do, \<open>DecodeBytes\<close> into a
  \<open>map[string]interface{}\<close>, the typed \<open>Decode\<close> into a \<open>MetadataResult\<close>; a decoding
  error carries its message) and \<open>NewNodeID\<close>. They are parameters of the model.
\<close>

record extern =
  EncodeBytes :: "govalue \<Rightarrow> byte list"
  DecodeBytes :: "byte list \<Rightarrow> string + (byte list \<times> bvalue) list"
  Decode :: "byte list \<Rightarrow> string + MetadataResult"
  NewNodeID :: "byte list"

subsection \<open>Constants\<close>

definition BtProtocol :: string where
  "BtProtocol = ''BitTorrent protocol''"

definition BtExtendedID :: byte where
  "BtExtendedID = 0"

definition BtMessageID :: byte where
  "BtMessageID = 20"

definition PieceSize :: int where
  "PieceSize = 16384"

definition MaxMetadataSize :: int where
  "MaxMetadataSize = 1048576"

text \<open>\<open>EventError = iota - 1\<close> is the sixth constant of its block, so \<open>iota\<close> is 5 there.\<close>

definition EventError :: int where
  "EventError = 4"

definition EventHandshake :: int where
  "EventHandshake = 5"

definition EventExtended :: int where
  "EventExtended = 6"

definition EventPiece :: int where
  "EventPiece = 7"

definition EventDone :: int where
  "EventDone = 8"

definition BtReserved :: "byte list" where
  "BtReserved = [0x00, 0x00, 0x00, 0x00, 0x00, 0x10, 0x00, 0x01]"

section \<open>Helpers of the Go library\<close>

text \<open>\<open>binary.Write\<close> and \<open>binary.Read\<close> of a big-endian uint32.\<close>

definition put_uint32 :: "nat \<Rightarrow> byte list" where
  "put_uint32 n = [of_nat (n div 2 ^ 24), of_nat (n div 2 ^ 16), of_nat (n div 2 ^ 8), of_nat n]"

fun get_uint32 :: "byte list \<Rightarrow> nat" where
  "get_uint32 (a # b # c # d # _) = unat a * 2 ^ 24 + unat b * 2 ^ 16 + unat c * 2 ^ 8 + unat d"
| "get_uint32 _ = 0"

text \<open>\<open>bytes.Index\<close>: the first position at which \<open>sep\<close> occurs, or \<open>-1\<close>.\<close>

fun Index :: "byte list \<Rightarrow> byte list \<Rightarrow> int" where
  "Index [] sep = (if sep = [] then 0 else - 1)"
| "Index (x # xs) sep =
     (if take (length sep) (x # xs) = sep then 0
      else (let r = Index xs sep in if r = - 1 then - 1 else r + 1))"

text \<open>\<open>bytes.Join(s, []byte{})\<close> of a table whose unfilled slots are nil.\<close>

definition Join :: "byte list option list \<Rightarrow> byte list" where
  "Join s = concat (map (\<lambda>c. case c of None \<Rightarrow> [] | Some b \<Rightarrow> b) s)"

text \<open>The verb \<open>%d\<close> of \<open>fmt.Sprintf\<close>.\<close>

fun digits :: "nat \<Rightarrow> string" where
  "digits n =
     (if n < 10 then [char_of (48 + n)] else digits (n div 10) @ [char_of (48 + n mod 10)])"

declare digits.simps [simp del]

definition show_int :: "int \<Rightarrow> string" where
  "show_int i = (if i < 0 then CHR ''-'' # digits (nat (- i)) else digits (nat i))"

text \<open>
  \<open>int(math.Ceil(float64(size) / float64(PieceSize)))\<close>. The divisor is a power of two, so
  the quotient is exact whenever \<open>float64(size)\<close> is, that is for \<open>\<bar>size\<bar> \<le> 2 ^ 53\<close>; the
  model takes the exact ceiling throughout.
\<close>

definition ceil_div :: "int \<Rightarrow> int \<Rightarrow> int" where
  "ceil_div a b = - ((- a) div b)"

section \<open>The processor\<close>

definition send_event :: "Processor \<Rightarrow> Event \<Rightarrow> abort + Processor" where
  "send_event p e =
     (case event_chan p of
        ChanNil \<Rightarrow> Inl BlockedOnNilChannel
      | ChanClosed \<Rightarrow> Inl SendOnClosedChannel
      | ChanOpen \<Rightarrow> Inr (p\<lparr>event := event p @ [e]\<rparr>))"

definition close_event :: "Processor \<Rightarrow> abort + Processor" where
  "close_event p =
     (case event_chan p of
        ChanNil \<Rightarrow> Inl CloseOfNilChannel
      | ChanClosed \<Rightarrow> Inl CloseOfClosedChannel
      | ChanOpen \<Rightarrow> Inr (p\<lparr>event_chan := ChanClosed\<rparr>))"

definition send_output :: "Processor \<Rightarrow> byte list \<Rightarrow> Processor" where
  "send_output p d = p\<lparr>outputs := outputs p @ [d]\<rparr>"

definition NewErrorEvent :: "string \<Rightarrow> Event" where
  "NewErrorEvent reason = \<lparr>Type = EventError, Reason = reason, Result = None\<rparr>"

definition plain_event :: "int \<Rightarrow> Event" where
  "plain_event t = \<lparr>Type = t, Reason = [], Result = None\<rparr>"

text \<open>The processor that \<open>NewWire\<close> builds: \<open>output\<close> is made, \<open>event\<close> is not.\<close>

definition NewProcessor :: Processor where
  "NewProcessor =
     \<lparr>Hash = [], Data = [], Size = 0, Handler = None, HandlerSize = 0, utmetadata = 0,
      metadata = [], metadataSize = 0, pieceLength = 0, recvedPiece = 0, outputs = [],
      event = [], event_chan = ChanNil\<rparr>"

definition process :: "int \<Rightarrow> DataHandler \<Rightarrow> Processor \<Rightarrow> Processor" where
  "process size' handler p = p\<lparr>HandlerSize := size', Handler := Some handler\<rparr>"

definition End :: "string \<Rightarrow> Processor \<Rightarrow> abort + Processor" where
  "End reason p = seq (send_event p (NewErrorEvent reason)) close_event"

subsection \<open>Outbound messages\<close>

definition packetHandshakeData :: "extern \<Rightarrow> Processor \<Rightarrow> byte list" where
  "packetHandshakeData lib p = [0x13] @ bytes_of BtProtocol @ BtReserved @ Hash p @ NewNodeID lib"

definition packetExtendedData :: "extern \<Rightarrow> byte list" where
  "packetExtendedData lib =
     (let body = [BtMessageID, BtExtendedID]
                 @ EncodeBytes lib (GoMap [(''m'', GoMap [(''ut_metadata'', GoInt 1)])])
      in put_uint32 (length body) @ body)"

text \<open>The dictionary holds the receiver \<open>p\<close> under \<open>"piece"\<close>; the parameter \<open>i\<close> is not read.\<close>

definition packetPieceRequestData :: "extern \<Rightarrow> Processor \<Rightarrow> int \<Rightarrow> byte list" where
  "packetPieceRequestData lib p i =
     (let body = [BtMessageID, of_int (utmetadata p)]
                 @ EncodeBytes lib (GoMap [(''msg_type'', GoInt 0), (''piece'', GoProcessor p)])
      in put_uint32 (length body) @ body)"

subsection \<open>Frame handlers\<close>

definition handleHandshake :: "Processor \<Rightarrow> Processor" where
  "handleHandshake p = process 1 H_HandshakeLength p"

text \<open>The outer closure of \<open>handleHandshake\<close>.\<close>

definition handshakeLength :: "Processor \<Rightarrow> byte list \<Rightarrow> abort + Processor" where
  "handshakeLength p data =
     (case data of
        [] \<Rightarrow> Inl IndexOutOfRange
      | b # _ \<Rightarrow> Inr (process (uint b + 48) (H_HandshakeBody (uint b)) p))"

text \<open>
  The inner closure of \<open>handleHandshake\<close>. A slice expression is checked against the
  length of the slice: the frames that \<open>Write\<close> cuts are modelled without spare capacity.
\<close>

definition handshakeBody :: "extern \<Rightarrow> int \<Rightarrow> Processor \<Rightarrow> byte list \<Rightarrow> abort + Processor" where
  "handshakeBody lib len p data =
     (if len < 0 \<or> int (length data) < len then Inl SliceBoundsOutOfRange
      else if take (nat len) data \<noteq> bytes_of BtProtocol
        then End ''this is not BitTorrent protocol'' p
      else (let reserved = drop (nat len) data in
        if length reserved \<le> 5 then Inl IndexOutOfRange
        else if (reserved ! 5) AND 0x10 = 0 then End ''peer reject'' p
        else seq (send_event p (plain_event EventHandshake))
               (\<lambda>p. Inr (send_output (process 4 H_Head p) (packetExtendedData lib)))))"

definition handleHead :: "Processor \<Rightarrow> byte list \<Rightarrow> Processor" where
  "handleHead p data =
     (let len = (if 4 \<le> length data then get_uint32 data else 0)
      in if int len > 0 then process (int len) H_Body p else p)"

text \<open>The loop \<open>for i := 0; i < p.pieceLength; i++\<close> of \<open>handleExtHandshake\<close>.\<close>

function request_loop :: "extern \<Rightarrow> int \<Rightarrow> Processor \<Rightarrow> Processor" where
  "request_loop lib i p =
     (if i < pieceLength p
      then request_loop lib (i + 1) (send_output p (packetPieceRequestData lib p i))
      else p)"
  by pat_completeness auto
termination
  by (relation "measure (\<lambda>(lib, i, p). nat (pieceLength p - i))") (auto simp: send_output_def)

declare request_loop.simps [simp del]

text \<open>
  \<open>make([][]byte, n)\<close> panics for a negative \<open>n\<close>; the limit that the allocator puts on
  a large \<open>n\<close> is not modelled.
\<close>

definition handleExtHandshake ::
  "extern \<Rightarrow> Processor \<Rightarrow> (byte list \<times> bvalue) list \<Rightarrow> abort + Processor" where
  "handleExtHandshake lib p0 ext =
     seq (send_event p0 (plain_event EventExtended)) (\<lambda>p.
       case as_int64 (map_of ext (bytes_of ''metadata_size'')) of
         None \<Rightarrow> Inr p
       | Some size' \<Rightarrow>
          (case as_map (map_of ext (bytes_of ''m'')) of
             None \<Rightarrow> Inr p
           | Some m \<Rightarrow>
              (case as_int64 (map_of m (bytes_of ''ut_metadata'')) of
                 None \<Rightarrow> Inr p
               | Some meta \<Rightarrow>
                  (let p1 = p\<lparr>utmetadata := meta, pieceLength := ceil_div size' PieceSize\<rparr> in
                   if pieceLength p1 < 0 then Inl MakeSliceLenOutOfRange
                   else (let p2 = p1\<lparr>metadata := replicate (nat (pieceLength p1)) None\<rparr> in
                     if utmetadata p2 = 0 \<or> size' = 0 \<or> size' > MaxMetadataSize
                     then End (''extended invalid metadata_size:'' @ show_int size'
                               @ '', ut_metadata:'' @ show_int (utmetadata p2)) p2
                     else Inr (request_loop lib 0 p2))))))"

definition handleDone :: "extern \<Rightarrow> Processor \<Rightarrow> abort + Processor" where
  "handleDone lib p =
     (let data = Join (metadata p) in
      case Decode lib data of
        Inl err \<Rightarrow> End (''Decode metadata error '' @ err) p
      | Inr result \<Rightarrow>
          seq (send_event p
                 \<lparr>Type = EventDone, Reason = [], Result = Some (result\<lparr>result_Hash := Hash p\<rparr>)\<rparr>)
              close_event)"

definition handlePiece :: "extern \<Rightarrow> Processor \<Rightarrow> byte list \<Rightarrow> abort + Processor" where
  "handlePiece lib p0 data =
     seq (send_event p0 (plain_event EventPiece)) (\<lambda>p.
       let i = Index data [101, 101] in
       if i = - 1 then End ''invalid piece info dict'' p
       else
         case DecodeBytes lib (take (nat (i + 2)) data) of
           Inl err \<Rightarrow> End (''decode piece dict error, '' @ err) p
         | Inr info \<Rightarrow>
            (let piece = drop (nat (i + 2)) data in
             case as_int64 (map_of info (bytes_of ''msg_type'')) of
               None \<Rightarrow> End (''invalid msg_type: '' @ show_int 0) p
             | Some t \<Rightarrow>
                 if t \<noteq> 1 then End (''invalid msg_type: '' @ show_int t) p
                 else
                   (case as_int64 (map_of info (bytes_of ''piece'')) of
                      None \<Rightarrow> End ''invalid piece'' p
                    | Some n \<Rightarrow>
                        if n < 0 \<or> int (length (metadata p)) \<le> n then Inl IndexOutOfRange
                        else
                          (let p1 = p\<lparr>metadata := (metadata p)[nat n := Some piece],
                                       recvedPiece := recvedPiece p + 1\<rparr>
                           in if recvedPiece p1 = pieceLength p1 then handleDone lib p1
                              else Inr p1))))"

definition handleExtended :: "extern \<Rightarrow> Processor \<Rightarrow> byte \<Rightarrow> byte list \<Rightarrow> abort + Processor" where
  "handleExtended lib p ext data =
     (if ext = 0 then
        (case DecodeBytes lib data of
           Inl err \<Rightarrow> End (''decode extended meta info error '' @ err) p
         | Inr val \<Rightarrow> handleExtHandshake lib p val)
      else handlePiece lib p data)"

definition handleBody :: "extern \<Rightarrow> Processor \<Rightarrow> byte list \<Rightarrow> abort + Processor" where
  "handleBody lib p0 data =
     (let p = process 4 H_Head p0 in
      case data of
        [] \<Rightarrow> Inl IndexOutOfRange
      | b0 # rest \<Rightarrow>
          if b0 = BtExtendedID then
            (case rest of
               [] \<Rightarrow> Inl IndexOutOfRange
             | b1 # rest' \<Rightarrow> handleExtended lib p b1 rest')
          else Inr p)"

text \<open>Calling the installed \<open>Handler\<close>; a nil func panics.\<close>

definition call_Handler :: "extern \<Rightarrow> Processor \<Rightarrow> byte list \<Rightarrow> abort + Processor" where
  "call_Handler lib p data =
     (case Handler p of
        None \<Rightarrow> Inl NilFuncCall
      | Some H_HandshakeLength \<Rightarrow> handshakeLength p data
      | Some (H_HandshakeBody len) \<Rightarrow> handshakeBody lib len p data
      | Some H_Head \<Rightarrow> Inr (handleHead p data)
      | Some H_Body \<Rightarrow> handleBody lib p data)"

subsection \<open>Start and Write\<close>

definition Start :: "extern \<Rightarrow> byte list \<Rightarrow> Processor \<Rightarrow> Processor" where
  "Start lib hash p =
     (let p1 = p\<lparr>Hash := hash\<rparr>;
          p2 = send_output p1 (packetHandshakeData lib p1)
      in handleHandshake p2)"

text \<open>
  The statements of one round of the loop of \<open>Write\<close> before the handler is called: the
  buffer is joined, \<open>Size\<close> reduced, the rest kept and the frame cut. A frame longer than the
  joined buffer is a slice panic; it needs a \<open>Size\<close> that miscounts the buffered bytes.
\<close>

definition Write_cut :: "Processor \<Rightarrow> abort + byte list \<times> Processor" where
  "Write_cut p =
     (let buf = concat (Data p);
          n = HandlerSize p;
          p1 = p\<lparr>Size := Size p - n\<rparr>
      in if n < 0 \<or> int (length buf) < n then Inl SliceBoundsOutOfRange
         else Inr (take (nat n) buf,
                   p1\<lparr>Data := (if Size p1 = 0 then [] else [drop (nat n) buf])\<rparr>))"

text \<open>
  The loop of \<open>Write\<close>. Its value is the list of frames handed to the handler, in order,
  and the outcome; \<open>None\<close> is a loop that never ends.
\<close>

partial_function (option) Write_loop ::
  "extern \<Rightarrow> Processor \<Rightarrow> (byte list list \<times> (abort + Processor)) option" where
  "Write_loop lib p =
     (if HandlerSize p \<le> Size p then
        (case Write_cut p of
           Inl e \<Rightarrow> Some ([], Inl e)
         | Inr (fr, p2) \<Rightarrow>
            (case call_Handler lib p2 fr of
               Inl e \<Rightarrow> Some ([fr], Inl e)
             | Inr p' \<Rightarrow> Option.bind (Write_loop lib p') (\<lambda>(frs, r). Some (fr # frs, r))))
      else Some ([], Inr p))"

declare Write_loop.simps [code]

definition Write ::
  "extern \<Rightarrow> Processor \<Rightarrow> byte list \<Rightarrow> (byte list list \<times> (abort + Processor)) option" where
  "Write lib p data =
     Write_loop lib (p\<lparr>Size := Size p + int (length data), Data := Data p @ [data]\<rparr>)"

text \<open>
  One run after another: the frames of both, in order; an abort of the first ends the whole.
\<close>

definition then_run ::
  "(byte list list \<times> (abort + Processor)) option \<Rightarrow>
   (Processor \<Rightarrow> (byte list list \<times> (abort + Processor)) option) \<Rightarrow>
   (byte list list \<times> (abort + Processor)) option" where
  "then_run m f =
     (case m of
        None \<Rightarrow> None
      | Some (frs, Inl e) \<Rightarrow> Some (frs, Inl e)
      | Some (frs, Inr p') \<Rightarrow> Option.bind (f p') (\<lambda>(frs', r). Some (frs @ frs', r)))"

text \<open>Successive calls of \<open>Write\<close>, one per chunk read from the socket, as \<open>Download\<close> makes them.\<close>

fun feed ::
  "extern \<Rightarrow> Processor \<Rightarrow> byte list list \<Rightarrow> (byte list list \<times> (abort + Processor)) option" where
  "feed lib p [] = Some ([], Inr p)"
| "feed lib p (c # cs) = then_run (Write lib p c) (\<lambda>p'. feed lib p' cs)"

section \<open>Notions used to state the properties\<close>

text \<open>
  What \<open>handlePiece\<close> reads from a message that passes its checks: the integer under
  \<open>"piece"\<close> and the bytes after the dictionary. \<open>None\<close> for a message it rejects.
\<close>

definition piece_message :: "extern \<Rightarrow> byte list \<Rightarrow> (int \<times> byte list) option" where
  "piece_message lib data =
     (let i = Index data [101, 101] in
      if i = - 1 then None
      else
        case DecodeBytes lib (take (nat (i + 2)) data) of
          Inl err \<Rightarrow> None
        | Inr info \<Rightarrow>
           (case as_int64 (map_of info (bytes_of ''msg_type'')) of
              None \<Rightarrow> None
            | Some t \<Rightarrow>
                if t \<noteq> 1 then None
                else
                  (case as_int64 (map_of info (bytes_of ''piece'')) of
                     None \<Rightarrow> None
                   | Some n \<Rightarrow> Some (n, drop (nat (i + 2)) data))))"

text \<open>
  What \<open>handleExtHandshake\<close> reads from a dictionary that has all it looks for:
  \<open>metadata_size\<close> and \<open>m.ut_metadata\<close>.
\<close>

definition ext_fields :: "(byte list \<times> bvalue) list \<Rightarrow> (int \<times> int) option" where
  "ext_fields ext =
     (case as_int64 (map_of ext (bytes_of ''metadata_size'')) of
        None \<Rightarrow> None
      | Some size' \<Rightarrow>
         (case as_map (map_of ext (bytes_of ''m'')) of
            None \<Rightarrow> None
          | Some m \<Rightarrow>
             (case as_int64 (map_of m (bytes_of ''ut_metadata'')) of
                None \<Rightarrow> None
              | Some meta \<Rightarrow> Some (size', meta))))"

text \<open>A terminal Error outcome: the call returned, its last event is an error, the stream is closed.\<close>

definition terminal_error :: "abort + Processor \<Rightarrow> bool" where
  "terminal_error r =
     (case r of
        Inl e \<Rightarrow> False
      | Inr p \<Rightarrow> event_chan p = ChanClosed \<and> event p \<noteq> [] \<and> Type (last (event p)) = EventError)"

text \<open>Piece messages handled one after another; an abort ends the run.\<close>

fun deliver :: "extern \<Rightarrow> Processor \<Rightarrow> byte list list \<Rightarrow> abort + Processor" where
  "deliver lib p [] = Inr p"
| "deliver lib p (d # ds) = seq (handlePiece lib p d) (\<lambda>p'. deliver lib p' ds)"

fun store :: "byte list option list \<Rightarrow> int \<times> byte list \<Rightarrow> byte list option list" where
  "store t (n, piece) = t[nat n := Some piece]"

definition in_table :: "Processor \<Rightarrow> int \<times> byte list \<Rightarrow> bool" where
  "in_table p item = (0 \<le> fst item \<and> fst item < int (length (metadata p)))"

text \<open>The processor after the pieces \<open>items\<close> have been stored, before any assembly.\<close>

definition stored :: "Processor \<Rightarrow> (int \<times> byte list) list \<Rightarrow> Processor" where
  "stored p items =
     p\<lparr>event := event p @ replicate (length items) (plain_event EventPiece),
       metadata := foldl store (metadata p) items,
       recvedPiece := recvedPiece p + int (length items)\<rparr>"

text \<open>The number of slots of the piece table that hold a piece.\<close>

definition filled :: "Processor \<Rightarrow> nat" where
  "filled p = length (filter (\<lambda>c. c \<noteq> None) (metadata p))"

text \<open>
  A processor between two calls of \<open>Write\<close>: \<open>Size\<close> counts the buffered bytes, and they
  are fewer than the frame demanded.
\<close>

definition idle :: "Processor \<Rightarrow> bool" where
  "idle p = (Size p = int (length (concat (Data p))) \<and> Size p < HandlerSize p)"

text \<open>The same processor with its buffered chunks joined into one.\<close>

definition joined :: "Processor \<Rightarrow> Processor" where
  "joined p = p\<lparr>Data := [concat (Data p)]\<rparr>"

definition joined_result ::
  "(byte list list \<times> (abort + Processor)) option \<Rightarrow> (byte list list \<times> (abort + Processor)) option" where
  "joined_result r = map_option (\<lambda>(frs, o'). (frs, map_sum id joined o')) r"

text \<open>The first two statements of \<open>Write\<close>: the chunk is counted and appended.\<close>

definition enqueue :: "Processor \<Rightarrow> byte list \<Rightarrow> Processor" where
  "enqueue p data = p\<lparr>Size := Size p + int (length data), Data := Data p @ [data]\<rparr>"

text \<open>
  A processor inside the loop of \<open>Write\<close>: \<open>Size\<close> counts the buffered bytes and the frame
  demanded is not empty.
\<close>

definition demanding :: "Processor \<Rightarrow> bool" where
  "demanding p = (Size p = int (length (concat (Data p))) \<and> 1 \<le> HandlerSize p)"

text \<open>The frame that one round of the loop cuts, and the processor handed to the handler.\<close>

definition frame :: "Processor \<Rightarrow> byte list" where
  "frame p = take (nat (HandlerSize p)) (concat (Data p))"

definition cut :: "Processor \<Rightarrow> Processor" where
  "cut p = p\<lparr>Size := Size p - HandlerSize p,
            Data := (if Size p - HandlerSize p = 0 then []
                     else [drop (nat (HandlerSize p)) (concat (Data p))])\<rparr>"

definition push ::
  "byte list \<Rightarrow> (byte list list \<times> (abort + Processor)) option \<Rightarrow>
   (byte list list \<times> (abort + Processor)) option" where
  "push fr m = Option.bind m (\<lambda>(frs, r). Some (fr # frs, r))"

text \<open>
  A processor without its buffer and without the bytes of the messages it has sent (their
  number stays). A piece request encodes the processor itself, buffer included, so the
  bytes of a request may depend on what is buffered when it is built; nothing else does.
\<close>

definition core :: "Processor \<Rightarrow> Processor" where
  "core p = p\<lparr>Data := [], Size := 0, outputs := map (\<lambda>d. []) (outputs p)\<rparr>"

text \<open>
  Two processors that differ at most in how the buffered bytes are split into chunks and in
  the bytes of the messages sent.
\<close>

definition same_engine :: "Processor \<Rightarrow> Processor \<Rightarrow> bool" where
  "same_engine p q = (core p = core q \<and> Size p = Size q \<and> concat (Data p) = concat (Data q))"

definition same_outcome :: "abort + Processor \<Rightarrow> abort + Processor \<Rightarrow> bool" where
  "same_outcome r r' =
     (case r of Inl e \<Rightarrow> r' = Inl e
      | Inr p \<Rightarrow> (case r' of Inl e \<Rightarrow> False | Inr q \<Rightarrow> same_engine p q))"

text \<open>Two runs that both end, hand the same frames to the handlers, and end alike.\<close>

definition same_run ::
  "(byte list list \<times> (abort + Processor)) option \<Rightarrow>
   (byte list list \<times> (abort + Processor)) option \<Rightarrow> bool" where
  "same_run a b =
     (case a of None \<Rightarrow> False
      | Some x \<Rightarrow> (case b of None \<Rightarrow> False
                  | Some y \<Rightarrow> fst x = fst y \<and> same_outcome (snd x) (snd y)))"

text \<open>What a handler call leaves alone, for an outcome that is not an abort.\<close>

definition buffer_kept :: "Processor \<Rightarrow> abort + Processor \<Rightarrow> bool" where
  "buffer_kept p r =
     (case r of Inl e \<Rightarrow> True
      | Inr p' \<Rightarrow> Data p' = Data p \<and> Size p' = Size p \<and> HandlerSize p' = HandlerSize p)"

definition demand_kept :: "Processor \<Rightarrow> abort + Processor \<Rightarrow> bool" where
  "demand_kept p r =
     (case r of Inl e \<Rightarrow> True
      | Inr p' \<Rightarrow> Data p' = Data p \<and> Size p' = Size p
                  \<and> (1 \<le> HandlerSize p \<longrightarrow> 1 \<le> HandlerSize p'))"

definition only_demand :: "Processor \<Rightarrow> abort + Processor \<Rightarrow> bool" where
  "only_demand p r =
     (case r of Inl e \<Rightarrow> True
      | Inr p' \<Rightarrow> p' = p\<lparr>Handler := Handler p', HandlerSize := HandlerSize p'\<rparr>)"

section \<open>A reference bencode codec\<close>

text \<open>
  Modelled from the spec: the bencode library (github.com/zeebo/bencode) is not part of
  wire.go. The spec names its format: dictionary payloads use the standard bencoded
  map/int/string/list encoding. The properties below are stated for every \<open>extern\<close>; this
  codec only supplies one on concrete inputs. The first argument of \<open>bdecode\<close> bounds the
  nesting depth; \<open>ref_DecodeBytes\<close> passes the input itself, which is deep enough.
\<close>

fun read_digits :: "byte list \<Rightarrow> nat \<Rightarrow> nat \<times> byte list" where
  "read_digits [] acc = (acc, [])"
| "read_digits (c # cs) acc =
     (if 48 \<le> c \<and> c \<le> 57 then read_digits cs (acc * 10 + (unat c - 48)) else (acc, c # cs))"

fun bdecode :: "'f list \<Rightarrow> byte list \<Rightarrow> (bvalue \<times> byte list) option"
  and bdecode_list :: "'f list \<Rightarrow> byte list \<Rightarrow> (bvalue list \<times> byte list) option"
  and bdecode_dict :: "'f list \<Rightarrow> byte list \<Rightarrow> ((byte list \<times> bvalue) list \<times> byte list) option"
where
  "bdecode [] s = None"
| "bdecode (u # fuel) s =
     (case s of
        [] \<Rightarrow> None
      | c # cs \<Rightarrow>
          if c = 105 then
            (case cs of
               [] \<Rightarrow> None
             | d # ds \<Rightarrow>
                 if d = 45 then
                   (case read_digits ds 0 of
                      (n, e # rest) \<Rightarrow>
                        if e = 101 \<and> e # rest \<noteq> ds then Some (BInt (- int n), rest) else None
                    | (n, []) \<Rightarrow> None)
                 else
                   (case read_digits cs 0 of
                      (n, e # rest) \<Rightarrow>
                        if e = 101 \<and> e # rest \<noteq> cs then Some (BInt (int n), rest) else None
                    | (n, []) \<Rightarrow> None))
          else if c = 108 then
            (case bdecode_list fuel cs of
               None \<Rightarrow> None
             | Some (vs, rest) \<Rightarrow> Some (BList vs, rest))
          else if c = 100 then
            (case bdecode_dict fuel cs of
               None \<Rightarrow> None
             | Some (kvs, rest) \<Rightarrow> Some (BDict kvs, rest))
          else if 48 \<le> c \<and> c \<le> 57 then
            (case read_digits s 0 of
               (n, e # rest) \<Rightarrow>
                 if e = 58 \<and> n \<le> length rest then Some (BString (take n rest), drop n rest)
                 else None
             | (n, []) \<Rightarrow> None)
          else None)"
| "bdecode_list [] s = None"
| "bdecode_list (u # fuel) s =
     (case s of
        [] \<Rightarrow> None
      | c # cs \<Rightarrow>
          if c = 101 then Some ([], cs)
          else
            (case bdecode fuel s of
               None \<Rightarrow> None
             | Some (v, rest) \<Rightarrow>
                 (case bdecode_list fuel rest of
                    None \<Rightarrow> None
                  | Some (vs, rest') \<Rightarrow> Some (v # vs, rest'))))"
| "bdecode_dict [] s = None"
| "bdecode_dict (u # fuel) s =
     (case s of
        [] \<Rightarrow> None
      | c # cs \<Rightarrow>
          if c = 101 then Some ([], cs)
          else
            (case bdecode fuel s of
               Some (BString k, rest) \<Rightarrow>
                 (case bdecode fuel rest of
                    None \<Rightarrow> None
                  | Some (v, rest') \<Rightarrow>
                      (case bdecode_dict fuel rest' of
                         None \<Rightarrow> None
                       | Some (kvs, rest'') \<Rightarrow> Some ((k, v) # kvs, rest'')))
             | _ \<Rightarrow> None))"

definition ref_DecodeBytes :: "byte list \<Rightarrow> string + (byte list \<times> bvalue) list" where
  "ref_DecodeBytes b =
     (case bdecode b b of
        Some (BDict kvs, _) \<Rightarrow> Inr kvs
      | Some (_, _) \<Rightarrow> Inl ''bencode: value is not a dictionary''
      | None \<Rightarrow> Inl ''bencode: syntax error'')"

fun as_string :: "bvalue option \<Rightarrow> byte list" where
  "as_string (Some (BString s)) = s"
| "as_string _ = []"

fun as_length :: "bvalue option \<Rightarrow> int" where
  "as_length (Some (BInt n)) = n"
| "as_length _ = 0"

fun as_files :: "bvalue option \<Rightarrow> File list" where
  "as_files (Some (BList vs)) =
     concat (map (\<lambda>v. case v of
                    BDict kvs \<Rightarrow>
                      [\<lparr>Path = as_string (map_of kvs (bytes_of ''path'')),
                        file_Size = as_length (map_of kvs (bytes_of ''length''))\<rparr>]
                  | _ \<Rightarrow> []) vs)"
| "as_files _ = []"

definition ref_Decode :: "byte list \<Rightarrow> string + MetadataResult" where
  "ref_Decode b =
     (case ref_DecodeBytes b of
        Inl err \<Rightarrow> Inl err
      | Inr kvs \<Rightarrow>
          Inr \<lparr>Error = None, result_Hash = [],
               Name = as_string (map_of kvs (bytes_of ''name'')),
               result_Size = as_length (map_of kvs (bytes_of ''length'')),
               Files = as_files (map_of kvs (bytes_of ''files'')),
               Pieces = map_of kvs (bytes_of ''pieces'')\<rparr>)"

text \<open>
  The reference encoder writes integers and maps, the keys of a map in the order given; a
  value of another type is an error, for which \<open>EncodeBytes\<close> returns no bytes.
\<close>

fun bencode :: "govalue \<Rightarrow> byte list option"
  and bencode_pairs :: "(string \<times> govalue) list \<Rightarrow> byte list option"
where
  "bencode (GoInt n) = Some (bytes_of (CHR ''i'' # show_int n @ ''e''))"
| "bencode (GoMap kvs) =
     (case bencode_pairs kvs of None \<Rightarrow> None | Some b \<Rightarrow> Some (100 # b @ [101]))"
| "bencode (GoProcessor p) = None"
| "bencode_pairs [] = Some []"
| "bencode_pairs (kv # kvs) =
     (case bencode (snd kv) of
        None \<Rightarrow> None
      | Some b \<Rightarrow>
         (case bencode_pairs kvs of
            None \<Rightarrow> None
          | Some bs \<Rightarrow> Some (bytes_of (digits (length (fst kv)) @ '':'' @ fst kv) @ b @ bs)))"

definition ref_EncodeBytes :: "govalue \<Rightarrow> byte list" where
  "ref_EncodeBytes v = (case bencode v of None \<Rightarrow> [] | Some b \<Rightarrow> b)"

definition ref_lib :: extern where
  "ref_lib =
     \<lparr>EncodeBytes = ref_EncodeBytes, DecodeBytes = ref_DecodeBytes, Decode = ref_Decode,
      NewNodeID = replicate 20 0x2d\<rparr>"

text \<open>A processor as \<open>NewWire\<close> builds it, but with its \<open>event\<close> channel made.\<close>

definition LiveProcessor :: Processor where
  "LiveProcessor = NewProcessor\<lparr>event_chan := ChanOpen\<rparr>"

text \<open>The handshake of a peer that speaks the protocol and supports extensions.\<close>

definition peer_handshake :: "byte list" where
  "peer_handshake = [19] @ bytes_of BtProtocol @ BtReserved @ replicate 40 0"

text \<open>A two-piece metadata download in progress: the table is allocated and empty.\<close>

definition two_pieces :: Processor where
  "two_pieces = LiveProcessor\<lparr>utmetadata := 2, metadata := [None, None], pieceLength := 2\<rparr>"

text \<open>A three-piece download in progress, and piece messages for it.\<close>

definition three_pieces :: Processor where
  "three_pieces = LiveProcessor\<lparr>utmetadata := 2, metadata := replicate 3 None, pieceLength := 3\<rparr>"

definition piece0_XY :: "byte list" where
  "piece0_XY = bytes_of ''d8:msg_typei1e5:piecei0eeXY''"

definition piece0_de :: "byte list" where
  "piece0_de = bytes_of ''d8:msg_typei1e5:piecei0eede''"

definition piece0_AA :: "byte list" where
  "piece0_AA = bytes_of ''d8:msg_typei1e5:piecei0eeAA''"

definition piece1_BB :: "byte list" where
  "piece1_BB = bytes_of ''d8:msg_typei1e5:piecei1eeBB''"

definition piece2_CC :: "byte list" where
  "piece2_CC = bytes_of ''d8:msg_typei1e5:piecei2eeCC''"

text \<open>
  What an observer sees of a processor: the types of the events sent, the state of the
  event channel, the frame demand, and how many slots of the piece table are filled.
\<close>

definition observe :: "Processor \<Rightarrow> int list \<times> chan_state \<times> DataHandler option \<times> int \<times> nat" where
  "observe p = (map Type (event p), event_chan p, Handler p, HandlerSize p, filled p)"

definition observe_result ::
  "abort + Processor \<Rightarrow> abort + int list \<times> chan_state \<times> DataHandler option \<times> int \<times> nat" where
  "observe_result r = map_sum id observe r"

definition observe_run ::
  "(byte list list \<times> (abort + Processor)) option \<Rightarrow>
   (byte list list \<times> (abort + int list \<times> chan_state \<times> DataHandler option \<times> int \<times> nat)) option" where
  "observe_run r = map_option (map_prod id observe_result) r"

text \<open>A processor whose event stream has been closed by \<open>End\<close> while it waits for a length prefix.\<close>

definition closed_engine :: Processor where
  "closed_engine =
     LiveProcessor\<lparr>Handler := Some H_Head, HandlerSize := 4,
       event := [plain_event EventHandshake, NewErrorEvent ''decode extended meta info error''],
       event_chan := ChanClosed\<rparr>"

section \<open>Message codec\<close>

text \<open>
  C1 (the piece request carries its index). In the code the request is the 4-byte
  big-endian length, the message id, the peer's sub-id and the encoded dictionary, but the
  dictionary holds the processor itself under \<open>"piece"\<close> and never the index: the
  requests for any two indices are the same bytes, whatever the encoder is, so no decoder
  can recover \<open>piece = i\<close> from them.
\<close>

theorem packetPieceRequestData_ignores_index:
  "packetPieceRequestData lib p i = packetPieceRequestData lib p j
   \<and> packetPieceRequestData lib p i =
       put_uint32 (2 + length (EncodeBytes lib
                      (GoMap [(''msg_type'', GoInt 0), (''piece'', GoProcessor p)])))
       @ [BtMessageID, of_int (utmetadata p)]
       @ EncodeBytes lib (GoMap [(''msg_type'', GoInt 0), (''piece'', GoProcessor p)])"
  by (simp add: packetPieceRequestData_def Let_def)

section \<open>Dispatch of a message body\<close>

text \<open>
  C2 (a body is dispatched exactly when its first byte is the extended message id 20). The
  code compares the first byte with \<open>BtExtendedID\<close>, which is 0: a body that starts with
  the message id 20 only re-installs the 4-byte length demand, and it is a body that starts
  with 0 whose next byte and rest go to \<open>handleExtended\<close>.
\<close>

theorem handleBody_dispatches_on_zero:
  "handleBody lib p (BtMessageID # rest) = Inr (process 4 H_Head p)
   \<and> handleBody lib p (BtExtendedID # sub # rest)
       = handleExtended lib (process 4 H_Head p) sub rest"
  by (simp add: handleBody_def BtMessageID_def BtExtendedID_def)

text \<open>
  C10 (a one-byte body with the dispatched id is read out of bounds, and a peer can send
  one). \<open>handleBody\<close> reads \<open>data[1]\<close> of the one-byte frame, which panics; after the
  handshake of a live processor, a length prefix of 1 followed by that byte, fed through
  \<open>Write\<close>, ends in this panic.
\<close>

theorem handleBody_one_byte_out_of_range:
  "handleBody lib p [BtExtendedID] = Inl IndexOutOfRange
   \<and> map_option snd
        (Write lib (Start lib hash LiveProcessor) (peer_handshake @ [0, 0, 0, 1, BtExtendedID]))
       = Some (Inl IndexOutOfRange)"
proof
  show "handleBody lib p [BtExtendedID] = Inl IndexOutOfRange"
    by (simp add: handleBody_def)
next
  have start: "Write lib (Start lib hash LiveProcessor) (peer_handshake @ [0, 0, 0, 1, BtExtendedID])
      = Write_loop lib
          (LiveProcessor\<lparr>Hash := hash, outputs := [packetHandshakeData lib (LiveProcessor\<lparr>Hash := hash\<rparr>)],
             HandlerSize := 1, Handler := Some H_HandshakeLength, Size := 73,
             Data := [peer_handshake @ [0, 0, 0, 1, BtExtendedID]]\<rparr>)"
    by (simp add: Write_def Start_def LiveProcessor_def NewProcessor_def handleHandshake_def
        process_def send_output_def peer_handshake_def bytes_of_def BtProtocol_def BtReserved_def)
  show "map_option snd
        (Write lib (Start lib hash LiveProcessor) (peer_handshake @ [0, 0, 0, 1, BtExtendedID]))
       = Some (Inl IndexOutOfRange)"
    unfolding start
    by (simp add: Write_loop.simps Write_cut_def call_Handler_def handshakeLength_def
        handshakeBody_def process_def send_output_def bytes_of_def BtProtocol_def BtReserved_def
        send_event_def seq_def handleHead_def handleBody_def BtExtendedID_def
        LiveProcessor_def NewProcessor_def peer_handshake_def)
qed

section \<open>Piece messages\<close>

lemma handlePiece_message:
  assumes "event_chan p = ChanOpen" and "piece_message lib d = Some (n, piece)"
  shows "handlePiece lib p d =
     (if n < 0 \<or> int (length (metadata p)) \<le> n then Inl IndexOutOfRange
      else if recvedPiece p + 1 = pieceLength p then handleDone lib (stored p [(n, piece)])
      else Inr (stored p [(n, piece)]))"
  using assms
  by (auto simp: handlePiece_def piece_message_def send_event_def seq_def Let_def stored_def
      split: sum.splits option.splits if_splits)

lemma piece_message_index_5:
  "piece_message ref_lib (bytes_of ''d8:msg_typei1e5:piecei5eeXY'') = Some (5, bytes_of ''XY'')"
  by (simp add: piece_message_def ref_lib_def ref_DecodeBytes_def bytes_of_def)

text \<open>
  C3 (a piece index outside the table gives a terminal Error). The code checks that
  \<open>piece\<close> is an integer and then indexes the table with it unchecked: for an index below 0
  or not below the length of the table the store panics. Nothing is stored, but the
  outcome is a run-time panic and no Error event.
\<close>

theorem handlePiece_index_out_of_range:
  assumes "event_chan p = ChanOpen" and "piece_message lib d = Some (n, piece)"
    and "n < 0 \<or> int (length (metadata p)) \<le> n"
  shows "handlePiece lib p d = Inl IndexOutOfRange \<and> \<not> terminal_error (handlePiece lib p d)"
  using assms by (simp add: handlePiece_message terminal_error_def)

theorem handlePiece_index_out_of_range_witness:
  "handlePiece ref_lib two_pieces (bytes_of ''d8:msg_typei1e5:piecei5eeXY'') = Inl IndexOutOfRange
   \<and> \<not> terminal_error (handlePiece ref_lib two_pieces (bytes_of ''d8:msg_typei1e5:piecei5eeXY''))"
  using handlePiece_index_out_of_range
    [of two_pieces ref_lib "bytes_of ''d8:msg_typei1e5:piecei5eeXY''" 5 "bytes_of ''XY''"]
  by (simp add: piece_message_index_5 two_pieces_def LiveProcessor_def NewProcessor_def
      terminal_error_def)

section \<open>The extended handshake\<close>

lemma ceil_div_neg: "s \<le> - PieceSize \<Longrightarrow> ceil_div s PieceSize < 0"
proof -
  assume "s \<le> - PieceSize"
  then have "16384 \<le> - s" by (simp add: PieceSize_def)
  then have "0 < (- s) div 16384" by (simp add: pos_imp_zdiv_pos_iff)
  then show ?thesis by (simp add: ceil_div_def PieceSize_def)
qed

lemma handleExtHandshake_fields:
  assumes "event_chan p = ChanOpen" and "ext_fields ext = Some (size', meta)"
  shows "handleExtHandshake lib p ext =
     (let n = ceil_div size' PieceSize;
          q = p\<lparr>event := event p @ [plain_event EventExtended], utmetadata := meta,
                pieceLength := n\<rparr> in
      if n < 0 then Inl MakeSliceLenOutOfRange
      else if meta = 0 \<or> size' = 0 \<or> size' > MaxMetadataSize
        then End (''extended invalid metadata_size:'' @ show_int size'
                   @ '', ut_metadata:'' @ show_int meta) (q\<lparr>metadata := replicate (nat n) None\<rparr>)
      else Inr (request_loop lib 0 (q\<lparr>metadata := replicate (nat n) None\<rparr>)))"
  using assms
  by (auto simp: handleExtHandshake_def ext_fields_def send_event_def seq_def Let_def
      split: option.splits)

lemma ceil_div_nonneg: "- PieceSize < s \<Longrightarrow> 0 \<le> ceil_div s PieceSize"
proof -
  assume "- PieceSize < s"
  then have lt: "- s < 16384" by (simp add: PieceSize_def)
  have "(- s) div 16384 \<le> 0"
  proof (cases "- s < 0")
    case True
    then have "(- s) div 16384 < 0" by (simp add: neg_imp_zdiv_neg_iff)
    then show ?thesis by simp
  next
    case False
    then have "(- s) div 16384 = 0" using lt by (simp add: div_pos_pos_trivial)
    then show ?thesis by simp
  qed
  then show ?thesis by (simp add: ceil_div_def PieceSize_def)
qed

lemma request_loop_fields:
  "event (request_loop lib i p) = event p
   \<and> event_chan (request_loop lib i p) = event_chan p
   \<and> metadata (request_loop lib i p) = metadata p
   \<and> utmetadata (request_loop lib i p) = utmetadata p
   \<and> length (outputs (request_loop lib i p)) = length (outputs p) + nat (pieceLength p - i)"
proof (induction lib i p rule: request_loop.induct)
  case (1 lib i p)
  show ?case
  proof (cases "i < pieceLength p")
    case True
    then show ?thesis
      using 1 by (subst (1 2 3 4 5) request_loop.simps) (simp add: send_output_def nat_diff_distrib)
  next
    case False
    then show ?thesis by (subst (1 2 3 4 5) request_loop.simps) simp
  qed
qed

text \<open>
  With a \<open>metadata_size\<close> above \<open>- 16384\<close> the allocation succeeds and the check is reached:
  a zero id, a zero size or a size above 1 MiB ends in the Error event with nothing sent.
\<close>

lemma handleExtHandshake_rejects:
  assumes "event_chan p = ChanOpen" and "ext_fields ext = Some (size', meta)"
    and "- PieceSize < size'" and "meta = 0 \<or> size' = 0 \<or> MaxMetadataSize < size'"
  shows "terminal_error (handleExtHandshake lib p ext)
     \<and> map_sum id outputs (handleExtHandshake lib p ext) = Inr (outputs p)"
proof -
  have "\<not> ceil_div size' PieceSize < 0" using ceil_div_nonneg [OF assms(3)] by simp
  then show ?thesis
    using assms(1,4) handleExtHandshake_fields [OF assms(1,2), of lib]
    by (auto simp: Let_def End_def send_event_def close_event_def seq_def terminal_error_def
        NewErrorEvent_def)
qed

text \<open>
  A nonzero id and a size in \<open>(0, 1 MiB]\<close>: the table has \<open>ceil(size / 16384)\<close> empty slots
  and as many messages are sent, with the event stream left open.
\<close>

lemma handleExtHandshake_requests:
  assumes "event_chan p = ChanOpen" and "ext_fields ext = Some (size', meta)"
    and "meta \<noteq> 0" and "0 < size'" and "size' \<le> MaxMetadataSize"
  shows "map_sum id (\<lambda>q. (event_chan q, utmetadata q, metadata q, length (outputs q)))
           (handleExtHandshake lib p ext)
     = Inr (ChanOpen, meta, replicate (nat (ceil_div size' PieceSize)) None,
            length (outputs p) + nat (ceil_div size' PieceSize))"
proof -
  have "- PieceSize < size'" using assms(4) by (simp add: PieceSize_def)
  then have "0 \<le> ceil_div size' PieceSize" by (rule ceil_div_nonneg)
  then have "\<not> ceil_div size' PieceSize < 0" by simp
  then show ?thesis
    using assms(1,3,4,5) handleExtHandshake_fields [OF assms(1,2), of lib]
    by (simp add: Let_def request_loop_fields)
qed

lemma ceil_div_20000: "ceil_div 20000 PieceSize = 2"
  by (simp add: ceil_div_def PieceSize_def)

lemma handleExtHandshake_no_fields:
  assumes "event_chan p = ChanOpen" and "ext_fields ext = None"
  shows "handleExtHandshake lib p ext = Inr (p\<lparr>event := event p @ [plain_event EventExtended]\<rparr>)"
  using assms
  by (auto simp: handleExtHandshake_def ext_fields_def send_event_def seq_def Let_def
      split: option.splits)

text \<open>
  C4 (a handshake dictionary without \<open>metadata_size\<close> or without \<open>m.ut_metadata\<close> gives a
  terminal Error). As amended: for such a dictionary the code emits the Extended event and
  nothing else; it returns with the stream open, no request sent and no field changed.
\<close>

theorem handleExtHandshake_missing_key:
  assumes "event_chan p = ChanOpen" and "ext_fields ext = None"
  shows "handleExtHandshake lib p ext = Inr (p\<lparr>event := event p @ [plain_event EventExtended]\<rparr>)"
  using assms by (rule handleExtHandshake_no_fields)

theorem handleExtHandshake_missing_key_witness:
  "handleExtHandshake ref_lib LiveProcessor [(bytes_of ''metadata_size'', BInt 20000)]
     = Inr (LiveProcessor\<lparr>event := [plain_event EventExtended]\<rparr>)"
  using handleExtHandshake_missing_key
    [of LiveProcessor "[(bytes_of ''metadata_size'', BInt 20000)]" ref_lib]
  by (simp add: ext_fields_def bytes_of_def LiveProcessor_def NewProcessor_def)

theorem handleExtHandshake_missing_key_counterexample:
  "\<not> terminal_error (handleExtHandshake ref_lib LiveProcessor [])"
  by (simp add: handleExtHandshake_def send_event_def seq_def LiveProcessor_def NewProcessor_def
      terminal_error_def)

text \<open>
  C5 (\<open>metadata_size\<close> of 0 or above 1 MiB, or \<open>ut_metadata\<close> of 0, gives a terminal Error
  and no request; otherwise one request per index). The code allocates the table before it
  checks: for a \<open>metadata_size\<close> of \<open>- 16384\<close> or less the piece count is negative and
  \<open>make\<close> panics, whatever \<open>ut_metadata\<close> is, so a handshake with \<open>ut_metadata = 0\<close> can end
  in a panic and not in an Error.
\<close>

theorem handleExtHandshake_negative_size:
  assumes "event_chan p = ChanOpen" and "ext_fields ext = Some (size', meta)"
    and "size' \<le> - PieceSize"
  shows "handleExtHandshake lib p ext = Inl MakeSliceLenOutOfRange"
  using assms by (simp add: handleExtHandshake_fields Let_def ceil_div_neg)

theorem handleExtHandshake_negative_size_witness:
  "handleExtHandshake ref_lib LiveProcessor
     [(bytes_of ''m'', BDict [(bytes_of ''ut_metadata'', BInt 0)]),
      (bytes_of ''metadata_size'', BInt (- 20000))]
   = Inl MakeSliceLenOutOfRange"
  using handleExtHandshake_negative_size
    [of LiveProcessor "[(bytes_of ''m'', BDict [(bytes_of ''ut_metadata'', BInt 0)]),
      (bytes_of ''metadata_size'', BInt (- 20000))]" "- 20000" 0 ref_lib]
  by (simp add: ext_fields_def bytes_of_def LiveProcessor_def NewProcessor_def PieceSize_def)

section \<open>Delivery of pieces\<close>

lemma seq_Inr [simp]: "seq m Inr = m"
  by (simp add: seq_def split: sum.splits)

lemma seq_simps [simp]: "seq (Inl e) f = Inl e" "seq (Inr x) f = f x"
  by (simp_all add: seq_def)

lemma stored_Nil [simp]: "stored p [] = p"
  by (simp add: stored_def)

lemma stored_Cons: "stored (stored p [it]) items = stored p (it # items)"
  by (simp add: stored_def replicate_app_Cons_same)

lemma length_foldl_store [simp]: "length (foldl store t items) = length t"
  by (induction items arbitrary: t) auto

lemma stored_fields [simp]:
  "event_chan (stored p items) = event_chan p"
  "pieceLength (stored p items) = pieceLength p"
  "recvedPiece (stored p items) = recvedPiece p + int (length items)"
  "length (metadata (stored p items)) = length (metadata p)"
  "metadata (stored p items) = foldl store (metadata p) items"
  by (simp_all add: stored_def)

lemma in_table_stored [simp]: "in_table (stored p items) it = in_table p it"
  by (simp add: in_table_def)

lemma those_length: "those xs = Some ys \<Longrightarrow> length ys = length xs"
  by (induction xs arbitrary: ys) (auto split: option.splits)

text \<open>
  Messages that pass the checks of \<open>handlePiece\<close> and index the table are stored one by
  one; the call that makes \<open>recvedPiece\<close> equal to \<open>pieceLength\<close> goes on to \<open>handleDone\<close>.
\<close>

lemma deliver_stored:
  assumes "event_chan p = ChanOpen"
    and "those (map (piece_message lib) ds) = Some items"
    and "list_all (in_table p) items"
    and "recvedPiece p < pieceLength p"
    and "recvedPiece p + int (length ds) \<le> pieceLength p"
  shows "deliver lib p ds =
     (if recvedPiece p + int (length ds) = pieceLength p then handleDone lib (stored p items)
      else Inr (stored p items))"
  using assms
proof (induction ds arbitrary: p items)
  case Nil
  then show ?case by simp
next
  case (Cons d ds)
  from Cons.prems(2) obtain it items' where it: "piece_message lib d = Some it"
    and items': "those (map (piece_message lib) ds) = Some items'" and items: "items = it # items'"
    by (auto split: option.splits)
  obtain n piece where np: "it = (n, piece)" by (cases it)
  have range: "\<not> (n < 0 \<or> int (length (metadata p)) \<le> n)"
    using Cons.prems(3) by (simp add: items np in_table_def)
  show ?case
  proof (cases "recvedPiece p + 1 = pieceLength p")
    case True
    moreover have "int (length (d # ds)) = 1 + int (length ds)" by simp
    ultimately have "int (length ds) \<le> 0" using Cons.prems(5) by linarith
    then have "ds = []" by simp
    then have "items' = []" using items' by simp
    then show ?thesis
      using True range it np Cons.prems(1) \<open>ds = []\<close> items
      by (simp add: handlePiece_message)
  next
    case False
    have step: "handlePiece lib p d = Inr (stored p [it])"
      using False range it np Cons.prems(1) by (simp add: handlePiece_message)
    have "deliver lib (stored p [it]) ds =
       (if recvedPiece (stored p [it]) + int (length ds) = pieceLength (stored p [it])
        then handleDone lib (stored (stored p [it]) items')
        else Inr (stored (stored p [it]) items'))"
      using Cons.prems False items
      by (intro Cons.IH items') (auto simp: list_all_iff)
    then show ?thesis
      by (simp add: step seq_def stored_Cons items)
  qed
qed

lemma foldl_store_other:
  assumes "list_all (\<lambda>it. 0 \<le> fst it) ys" and "n \<notin> fst ` set ys" and "0 \<le> n"
  shows "foldl store t ys ! nat n = t ! nat n"
  using assms
proof (induction ys arbitrary: t)
  case Nil
  then show ?case by simp
next
  case (Cons y ys)
  obtain k b where y: "y = (k, b)" by (cases y)
  have "nat k \<noteq> nat n" using Cons.prems y by auto
  then show ?case using Cons y by simp
qed

lemma foldl_store_last:
  assumes "list_all (\<lambda>it. 0 \<le> fst it \<and> fst it < int (length t)) (xs @ (n, piece) # ys)"
    and "n \<notin> fst ` set ys"
  shows "foldl store t (xs @ (n, piece) # ys) ! nat n = Some piece"
proof -
  have n: "0 \<le> n" "nat n < length t" using assms(1) by auto
  have ys: "list_all (\<lambda>it. 0 \<le> fst it) ys" using assms(1) by (auto simp: list_all_iff)
  have "foldl store t (xs @ (n, piece) # ys) ! nat n
      = (foldl store t xs)[nat n := Some piece] ! nat n"
    using foldl_store_other [OF ys assms(2) n(1)] by simp
  then show ?thesis using n by simp
qed

lemma piece_message_index_0:
  "piece_message ref_lib piece0_XY = Some (0, bytes_of ''XY'')"
  "piece_message ref_lib piece0_de = Some (0, bytes_of ''de'')"
  "piece_message ref_lib piece0_AA = Some (0, bytes_of ''AA'')"
  by (simp_all add: piece_message_def ref_lib_def ref_DecodeBytes_def bytes_of_def
      piece0_XY_def piece0_de_def piece0_AA_def)

lemma piece_message_index_1_2:
  "piece_message ref_lib piece1_BB = Some (1, bytes_of ''BB'')"
  "piece_message ref_lib piece2_CC = Some (2, bytes_of ''CC'')"
  by (simp_all add: piece_message_def ref_lib_def ref_DecodeBytes_def bytes_of_def
      piece1_BB_def piece2_CC_def)

text \<open>
  C6 (last write wins, and assembly starts exactly when the number of distinct filled
  indices reaches the piece count). As amended: for piece messages that pass the checks and
  index the table, the entry of an index is the payload of its last delivery, and assembly
  starts exactly at the message that makes the number of messages handled, duplicates
  counted, equal to the piece count.
\<close>

theorem deliver_counts_messages:
  assumes "event_chan p = ChanOpen"
    and "those (map (piece_message lib) ds) = Some items"
    and "list_all (in_table p) items"
    and "recvedPiece p < pieceLength p"
    and "recvedPiece p + int (length ds) \<le> pieceLength p"
  shows "deliver lib p ds =
       (if recvedPiece p + int (length ds) = pieceLength p then handleDone lib (stored p items)
        else Inr (stored p items))
     \<and> (\<forall>xs n piece ys. items = xs @ (n, piece) # ys \<and> n \<notin> fst ` set ys
           \<longrightarrow> metadata (stored p items) ! nat n = Some piece)"
proof (intro conjI allI impI)
  show "deliver lib p ds =
       (if recvedPiece p + int (length ds) = pieceLength p then handleDone lib (stored p items)
        else Inr (stored p items))"
    by (rule deliver_stored [OF assms])
next
  fix xs n piece ys
  assume a: "items = xs @ (n, piece) # ys \<and> n \<notin> fst ` set ys"
  have "list_all (\<lambda>it. 0 \<le> fst it \<and> fst it < int (length (metadata p))) (xs @ (n, piece) # ys)"
    using assms(3) a by (simp add: in_table_def list_all_iff)
  then show "metadata (stored p items) ! nat n = Some piece"
    using a foldl_store_last by simp
qed

theorem deliver_counts_messages_witness:
  "deliver ref_lib two_pieces [piece0_XY, piece0_de]
     = handleDone ref_lib (stored two_pieces [(0, bytes_of ''XY''), (0, bytes_of ''de'')])
   \<and> metadata (stored two_pieces [(0, bytes_of ''XY''), (0, bytes_of ''de'')]) ! 0
       = Some (bytes_of ''de'')"
  using deliver_counts_messages [of two_pieces ref_lib "[piece0_XY, piece0_de]"
      "[(0, bytes_of ''XY''), (0, bytes_of ''de'')]"]
  by (simp add: piece_message_index_0 two_pieces_def LiveProcessor_def NewProcessor_def
      in_table_def)

text \<open>
  Index 0 delivered twice to a two-piece table: the second delivery starts assembly and the
  Done event is sent, with one slot of two filled.
\<close>

theorem deliver_counts_messages_counterexample:
  "observe_result (deliver ref_lib two_pieces [piece0_XY, piece0_de])
     = Inr ([EventPiece, EventPiece, EventDone], ChanClosed, None, 0, 1)
   \<and> pieceLength two_pieces = 2"
proof
  have "deliver ref_lib two_pieces [piece0_XY, piece0_de]
      = handleDone ref_lib (stored two_pieces [(0, bytes_of ''XY''), (0, bytes_of ''de'')])"
    by (simp add: handlePiece_message piece_message_index_0 two_pieces_def LiveProcessor_def
        NewProcessor_def stored_def)
  then show "observe_result (deliver ref_lib two_pieces [piece0_XY, piece0_de])
     = Inr ([EventPiece, EventPiece, EventDone], ChanClosed, None, 0, 1)"
    by (simp add: handleDone_def stored_def Join_def ref_lib_def ref_Decode_def
        ref_DecodeBytes_def bytes_of_def send_event_def close_event_def seq_def filled_def
        plain_event_def observe_result_def observe_def two_pieces_def LiveProcessor_def
        NewProcessor_def)
  show "pieceLength two_pieces = 2"
    by (simp add: two_pieces_def)
qed

subsection \<open>Order of arrival\<close>

lemma distinct_map_sort_key: "distinct (map f (sort_key f xs)) = distinct (map f xs)"
  by (induction xs) (auto simp: distinct_insort_key)

lemma keys_sorted:
  assumes "distinct (map fst items)" and "set (map fst items) = {0..<int N}"
  shows "map fst (sort_key fst items) = [0..int N - 1]"
proof (rule sorted_distinct_set_unique)
  show "sorted (map fst (sort_key fst items))" by (rule sorted_sort_key)
  show "distinct (map fst (sort_key fst items))" using assms(1) by (simp add: distinct_map_sort_key)
  show "sorted [0..int N - 1]" by simp
  show "distinct [0..int N - 1]" by simp
  show "set (map fst (sort_key fst items)) = set [0..int N - 1]"
    using assms(2) by auto
qed

lemma table_sorted:
  assumes "distinct (map fst items)" and "set (map fst items) = {0..<int N}"
  shows "foldl store (replicate N None) items = map (Some \<circ> snd) (sort_key fst items)"
proof (rule nth_equalityI)
  have "card (set (map fst items)) = length (map fst items)"
    by (rule distinct_card [OF assms(1)])
  then have len: "length items = N" using assms(2) by simp
  then show "length (foldl store (replicate N None) items)
      = length (map (Some \<circ> snd) (sort_key fst items))" by simp
  fix i assume "i < length (foldl store (replicate N None) items)"
  then have i: "i < N" by simp
  then have "int i \<in> set (map fst items)" using assms(2) by simp
  then obtain piece where mem: "(int i, piece) \<in> set items" by auto
  then obtain xs ys where split: "items = xs @ (int i, piece) # ys"
    by (auto simp: in_set_conv_decomp)
  have later: "int i \<notin> fst ` set ys" using assms(1) split by auto
  have "\<forall>it \<in> set items. 0 \<le> fst it \<and> fst it < int N"
    using assms(2) by (metis atLeastLessThan_iff image_eqI set_map)
  then have range: "list_all (\<lambda>it. 0 \<le> fst it
        \<and> fst it < int (length (replicate N (None :: byte list option))))
      (xs @ (int i, piece) # ys)"
    unfolding split [symmetric] by (simp add: list_all_iff)
  have lhs: "foldl store (replicate N None) items ! i = Some piece"
    using foldl_store_last [OF range later] split by simp
  have "map fst (sort_key fst items) ! i = [0..int N - 1] ! i"
    using keys_sorted [OF assms] by simp
  then have key: "fst (sort_key fst items ! i) = int i"
    using i len by simp
  have "sort_key fst items ! i \<in> set items"
    using i len by (metis length_sort nth_mem set_sort)
  moreover have "inj_on fst (set items)" using assms(1) by (simp add: distinct_map)
  ultimately have "sort_key fst items ! i = (int i, piece)"
    using mem key inj_onD [of fst "set items" "sort_key fst items ! i" "(int i, piece)"] by simp
  then show "foldl store (replicate N None) items ! i = map (Some \<circ> snd) (sort_key fst items) ! i"
    using lhs i len by simp
qed

lemma Join_Some [simp]: "Join (map (Some \<circ> f) xs) = concat (map f xs)"
  by (induction xs) (simp_all add: Join_def)

lemma indices_of_three: "{2, 0, 1} = {0..<(3::int)}"
  by auto



section \<open>The stream reassembler\<close>

lemma core_request_loop:
  "core (request_loop lib i p) = (core p)\<lparr>outputs := outputs (core p) @ replicate (nat (pieceLength p - i)) []\<rparr>
   \<and> Data (request_loop lib i p) = Data p \<and> Size (request_loop lib i p) = Size p
   \<and> HandlerSize (request_loop lib i p) = HandlerSize p"
proof (induction lib i p rule: request_loop.induct)
  case (1 lib i p)
  show ?case
  proof (cases "i < pieceLength p")
    case True
    have "nat (pieceLength p - i) = Suc (nat (pieceLength p - (i + 1)))" using True by simp
    then show ?thesis
      using 1 True by (subst (1 2 3 4) request_loop.simps) (simp add: send_output_def core_def replicate_app_Cons_same)
  next
    case False
    then show ?thesis by (subst (1 2 3 4) request_loop.simps) (simp add: core_def)
  qed
qed

lemma core_idem [simp]: "core (core p) = core p"
  by (simp add: core_def)

lemma core_fields [simp]:
  "Hash (core p) = Hash p" "Handler (core p) = Handler p" "HandlerSize (core p) = HandlerSize p"
  "utmetadata (core p) = utmetadata p" "metadata (core p) = metadata p"
  "pieceLength (core p) = pieceLength p" "recvedPiece (core p) = recvedPiece p"
  "event (core p) = event p" "event_chan (core p) = event_chan p"
  by (simp_all add: core_def)

lemma handleExtHandshake_core:
  "map_sum id core (handleExtHandshake lib p ext) = map_sum id core (handleExtHandshake lib (core p) ext)"
  by (simp add: handleExtHandshake_def send_event_def seq_def End_def close_event_def NewErrorEvent_def Let_def
      core_request_loop
      split: chan_state.splits option.splits)
    (simp add: core_def)

lemma handleDone_core:
  "map_sum id core (handleDone lib p) = map_sum id core (handleDone lib (core p))"
  by (simp add: handleDone_def send_event_def seq_def End_def close_event_def Let_def
      split: chan_state.splits sum.splits)
    (simp add: core_def)

lemma handlePiece_core:
  "map_sum id core (handlePiece lib p d) = map_sum id core (handlePiece lib (core p) d)"
proof -
  have upd: "\<And>e m r. core ((core p)\<lparr>event := e, metadata := m, recvedPiece := r\<rparr>)
      = core (p\<lparr>event := e, metadata := m, recvedPiece := r\<rparr>)"
    by (simp add: core_def)
  have done': "map_sum id core (handleDone lib ((core p)\<lparr>event := e, metadata := m, recvedPiece := r\<rparr>))
     = map_sum id core (handleDone lib (p\<lparr>event := e, metadata := m, recvedPiece := r\<rparr>))" for e m r
    using handleDone_core [of lib "p\<lparr>event := e, metadata := m, recvedPiece := r\<rparr>"]
      handleDone_core [of lib "(core p)\<lparr>event := e, metadata := m, recvedPiece := r\<rparr>"]
    by (simp only: upd)
  have ev: "\<And>e. core ((core p)\<lparr>event := e, event_chan := ChanClosed\<rparr>) = core (p\<lparr>event := e, event_chan := ChanClosed\<rparr>)"
    by (simp add: core_def)
  show ?thesis
  proof (cases "event_chan p")
    case ChanNil
    then show ?thesis by (simp add: handlePiece_def send_event_def)
  next
    case ChanClosed
    then show ?thesis by (simp add: handlePiece_def send_event_def)
  next
    case ChanOpen
    then show ?thesis
      by (simp add: handlePiece_def send_event_def End_def close_event_def Let_def done' upd ev
          split: sum.splits option.splits)
  qed
qed

lemma core_closed:
  "core ((core q)\<lparr>event := e, event_chan := ChanClosed\<rparr>) = core (q\<lparr>event := e, event_chan := ChanClosed\<rparr>)"
  by (simp add: core_def)

lemma handleExtended_core:
  "map_sum id core (handleExtended lib p b rest) = map_sum id core (handleExtended lib (core p) b rest)"
proof (cases "b = 0")
  case False
  then show ?thesis using handlePiece_core by (simp add: handleExtended_def)
next
  case True
  show ?thesis
  proof (cases "DecodeBytes lib rest")
    case (Inr val)
    then show ?thesis using True handleExtHandshake_core by (simp add: handleExtended_def)
  next
    case (Inl err)
    then show ?thesis using True
      by (simp add: handleExtended_def send_event_def End_def close_event_def core_closed
          split: chan_state.splits)
  qed
qed

lemma handleBody_unfold:
  "handleBody lib q d =
     (case d of [] \<Rightarrow> Inl IndexOutOfRange
      | b0 # rest \<Rightarrow>
          if b0 = BtExtendedID then
            (case rest of [] \<Rightarrow> Inl IndexOutOfRange
             | b1 # rest' \<Rightarrow> handleExtended lib (process 4 H_Head q) b1 rest')
          else Inr (process 4 H_Head q))"
  by (simp add: handleBody_def Let_def)

lemma handleBody_core:
  "map_sum id core (handleBody lib p d) = map_sum id core (handleBody lib (core p) d)"
proof -
  have pr: "process 4 H_Head (core p) = core (process 4 H_Head p)"
    by (simp add: process_def core_def)
  have ext: "map_sum id core (handleExtended lib (core (process 4 H_Head p)) b1 rest')
     = map_sum id core (handleExtended lib (process 4 H_Head p) b1 rest')" for b1 rest'
    by (rule handleExtended_core [symmetric])
  show ?thesis
    unfolding handleBody_unfold pr
    by (simp add: ext split: list.splits)
qed

lemma call_Handler_core:
  "map_sum id core (call_Handler lib p fr) = map_sum id core (call_Handler lib (core p) fr)"
proof (cases "Handler p")
  case None
  then show ?thesis by (simp add: call_Handler_def)
next
  case (Some h)
  show ?thesis
  proof (cases h)
    case H_HandshakeLength
    then show ?thesis using Some
      by (simp add: call_Handler_def handshakeLength_def process_def core_def split: list.splits)
  next
    case (H_HandshakeBody len)
    then show ?thesis using Some
      by (simp add: call_Handler_def handshakeBody_def Let_def send_event_def End_def
          close_event_def process_def send_output_def core_def split: chan_state.splits)
  next
    case H_Head
    then show ?thesis using Some
      by (simp add: call_Handler_def handleHead_def Let_def process_def core_def)
  next
    case H_Body
    then show ?thesis using Some handleBody_core by (simp add: call_Handler_def)
  qed
qed

lemma End_Inr:
  "End reason p = Inr p' \<Longrightarrow>
     p' = p\<lparr>event := event p @ [NewErrorEvent reason], event_chan := ChanClosed\<rparr>
     \<and> event_chan p = ChanOpen"
  by (auto simp: End_def send_event_def close_event_def seq_def split: chan_state.splits)

lemma send_event_Inr:
  "send_event p e = Inr p' \<Longrightarrow> p' = p\<lparr>event := event p @ [e]\<rparr> \<and> event_chan p = ChanOpen"
  by (auto simp: send_event_def split: chan_state.splits)

lemma close_event_Inr:
  "close_event p = Inr p' \<Longrightarrow> p' = p\<lparr>event_chan := ChanClosed\<rparr>"
  by (auto simp: close_event_def split: chan_state.splits)

lemma seq_Inr_iff: "seq m f = Inr y \<longleftrightarrow> (\<exists>x. m = Inr x \<and> f x = Inr y)"
  by (cases m) simp_all

lemma buffer_keptD:
  "buffer_kept p r \<Longrightarrow> r = Inr p' \<Longrightarrow>
     Data p' = Data p \<and> Size p' = Size p \<and> HandlerSize p' = HandlerSize p"
  by (simp add: buffer_kept_def)

lemma request_loop_buffer [simp]:
  "Data (request_loop lib i p) = Data p" "Size (request_loop lib i p) = Size p"
  "HandlerSize (request_loop lib i p) = HandlerSize p"
  by (simp_all add: core_request_loop)

lemma handlePiece_rejected:
  assumes "event_chan p = ChanOpen" and "piece_message lib d = None"
  shows "\<exists>reason. handlePiece lib p d = End reason (p\<lparr>event := event p @ [plain_event EventPiece]\<rparr>)"
  using assms
  by (auto simp: handlePiece_def piece_message_def send_event_def Let_def
      split: sum.splits option.splits if_splits)

lemma End_buffer: "buffer_kept p (End reason (p\<lparr>event := e\<rparr>))"
  by (simp add: buffer_kept_def End_def send_event_def close_event_def seq_def
      split: chan_state.splits)

lemma handleDone_buffer: "buffer_kept p (handleDone lib p)"
  by (simp add: buffer_kept_def handleDone_def End_def send_event_def close_event_def seq_def
      Let_def split: chan_state.splits sum.splits)

lemma handlePiece_buffer: "buffer_kept p (handlePiece lib p d)"
proof (cases "event_chan p = ChanOpen")
  case False
  then show ?thesis
    by (cases "event_chan p") (simp_all add: buffer_kept_def handlePiece_def send_event_def)
next
  case op: True
  show ?thesis
  proof (cases "piece_message lib d")
    case None
    then show ?thesis using handlePiece_rejected [OF op None, of ] End_buffer by metis
  next
    case (Some np)
    obtain n piece where np: "np = (n, piece)" by (cases np)
    have "buffer_kept (stored p [(n, piece)]) (handleDone lib (stored p [(n, piece)]))"
      by (rule handleDone_buffer)
    then have hd: "buffer_kept p (handleDone lib (stored p [(n, piece)]))"
      by (simp add: buffer_kept_def stored_def split: sum.splits)
    have st: "buffer_kept p (Inr (stored p [(n, piece)]))"
      by (simp add: buffer_kept_def stored_def)
    have il: "buffer_kept p (Inl IndexOutOfRange)"
      by (simp add: buffer_kept_def)
    show ?thesis
      unfolding handlePiece_message [OF op, of lib d n piece, OF Some [unfolded np]]
      by (simp add: hd st il)
  qed
qed

lemma handleExtHandshake_buffer: "buffer_kept p (handleExtHandshake lib p ext)"
proof (cases "event_chan p = ChanOpen")
  case False
  then show ?thesis
    by (cases "event_chan p") (simp_all add: buffer_kept_def handleExtHandshake_def send_event_def)
next
  case op: True
  show ?thesis
  proof (cases "ext_fields ext")
    case None
    then show ?thesis
      using handleExtHandshake_no_fields [OF op None, of lib] by (simp add: buffer_kept_def)
  next
    case (Some sm)
    obtain size' meta where sm: "sm = (size', meta)" by (cases sm)
    show ?thesis
      using handleExtHandshake_fields [OF op, of ext size' meta lib] Some sm
      by (simp add: buffer_kept_def Let_def End_def send_event_def close_event_def op)
  qed
qed

lemma handleExtended_buffer: "buffer_kept p (handleExtended lib p b rest)"
proof (cases "b = 0")
  case False
  then show ?thesis using handlePiece_buffer by (simp add: handleExtended_def)
next
  case True
  show ?thesis
  proof (cases "DecodeBytes lib rest")
    case (Inr val)
    then show ?thesis using True handleExtHandshake_buffer by (simp add: handleExtended_def)
  next
    case (Inl err)
    then show ?thesis using True
      by (simp add: handleExtended_def buffer_kept_def send_event_def End_def close_event_def
          seq_def split: chan_state.splits)
  qed
qed

lemma handshakeBody_demand: "demand_kept p (handshakeBody lib len p data)"
  by (simp add: demand_kept_def handshakeBody_def Let_def End_def send_event_def close_event_def
      seq_def process_def send_output_def split: chan_state.splits)

lemma handleBody_demand: "demand_kept p (handleBody lib p data)"
proof -
  have "demand_kept p (handleExtended lib (process 4 H_Head p) b rest)" for b rest
    using handleExtended_buffer [of "process 4 H_Head p" lib b rest]
    by (simp add: buffer_kept_def demand_kept_def process_def split: sum.splits)
  then show ?thesis
    unfolding handleBody_unfold
    by (simp add: demand_kept_def process_def split: list.splits)
qed

lemma call_Handler_demand: "demand_kept p (call_Handler lib p fr)"
proof (cases "Handler p")
  case None
  then show ?thesis by (simp add: call_Handler_def demand_kept_def)
next
  case (Some h)
  show ?thesis
  proof (cases h)
    case H_HandshakeLength
    then show ?thesis using Some
      by (simp add: call_Handler_def handshakeLength_def process_def demand_kept_def
          split: list.splits)
  next
    case (H_HandshakeBody len)
    then show ?thesis using Some handshakeBody_demand by (simp add: call_Handler_def)
  next
    case H_Head
    then show ?thesis using Some
      by (simp add: call_Handler_def handleHead_def Let_def process_def demand_kept_def)
  next
    case H_Body
    then show ?thesis using Some handleBody_demand by (simp add: call_Handler_def)
  qed
qed

lemma call_Handler_buffer:
  assumes "call_Handler lib p fr = Inr p'"
  shows "Data p' = Data p \<and> Size p' = Size p \<and> (1 \<le> HandlerSize p \<longrightarrow> 1 \<le> HandlerSize p')"
  using call_Handler_demand [of p lib fr] assms by (simp add: demand_kept_def)

lemma handleExtended_closed:
  "event_chan p = ChanClosed \<Longrightarrow> handleExtended lib p b rest = Inl SendOnClosedChannel"
  by (simp add: handleExtended_def handlePiece_def handleExtHandshake_def End_def send_event_def
      split: sum.splits)

lemma call_Handler_closed:
  assumes "event_chan p = ChanClosed"
  shows "only_demand p (call_Handler lib p fr)"
proof (cases "Handler p")
  case None
  then show ?thesis by (simp add: call_Handler_def only_demand_def)
next
  case (Some h)
  show ?thesis
  proof (cases h)
    case H_HandshakeLength
    then show ?thesis using Some
      by (simp add: call_Handler_def handshakeLength_def process_def only_demand_def
          split: list.splits)
  next
    case (H_HandshakeBody len)
    then show ?thesis using Some assms
      by (simp add: call_Handler_def handshakeBody_def Let_def End_def send_event_def
          only_demand_def)
  next
    case H_Head
    then show ?thesis using Some
      by (simp add: call_Handler_def handleHead_def Let_def process_def only_demand_def)
  next
    case H_Body
    have "event_chan (process 4 H_Head p) = ChanClosed" using assms by (simp add: process_def)
    then have "handleExtended lib (process 4 H_Head p) b rest = Inl SendOnClosedChannel" for b rest
      by (rule handleExtended_closed)
    then show ?thesis using Some H_Body
      by (simp add: call_Handler_def handleBody_unfold only_demand_def process_def
          split: list.splits)
  qed
qed

lemma Write_loop_closed:
  assumes "Write_loop lib p = Some y"
  shows "event_chan p = ChanClosed \<longrightarrow>
     (\<forall>p'. snd y = Inr p' \<longrightarrow>
        p' = p\<lparr>Data := Data p', Size := Size p', Handler := Handler p', HandlerSize := HandlerSize p'\<rparr>)"
proof (induction lib p y rule: Write_loop.raw_induct)
  case (1 Write_loop lib p y)
  show ?case
  proof (intro impI allI)
    fix p' assume closed: "event_chan p = ChanClosed" and y: "snd y = Inr p'"
    show "p' = p\<lparr>Data := Data p', Size := Size p', Handler := Handler p', HandlerSize := HandlerSize p'\<rparr>"
    proof (cases "HandlerSize p \<le> Size p")
      case False
      then show ?thesis using 1(2) y by auto
    next
      case True
      define p2 where "p2 = p\<lparr>Size := Size p - HandlerSize p,
          Data := (if Size p - HandlerSize p = 0 then []
                   else [drop (nat (HandlerSize p)) (concat (Data p))])\<rparr>"
      obtain fr where step: "Write_cut p = Inr (fr, p2)"
        using 1(2) True y
        by (cases "Write_cut p") (auto simp: Write_cut_def Let_def p2_def split: if_splits)
      show ?thesis
      proof (cases "call_Handler lib p2 fr")
        case (Inl e)
        then show ?thesis using 1(2) True step y by auto
      next
        case (Inr q)
        then obtain frs where loop: "Write_loop lib q = Some (frs, Inr p')"
          using 1(2) True step y by (auto simp: bind_eq_Some_conv)
        note call = Inr
        have "event_chan p2 = ChanClosed" using closed by (simp add: p2_def)
        from call_Handler_closed [OF this, of lib fr] call
        have q: "q = p2\<lparr>Handler := Handler q, HandlerSize := HandlerSize q\<rparr>"
          by (simp add: only_demand_def)
        have "event_chan q = event_chan (p2\<lparr>Handler := Handler q, HandlerSize := HandlerSize q\<rparr>)"
          by (rule arg_cong [OF q, of event_chan])
        then have "event_chan q = ChanClosed"
          using \<open>event_chan p2 = ChanClosed\<close> by simp
        with 1(1) [OF loop] have "p' = q\<lparr>Data := Data p', Size := Size p', Handler := Handler p', HandlerSize := HandlerSize p'\<rparr>"
          by simp
        then show ?thesis
          by (subst (asm) q) (simp add: p2_def)
      qed
    qed
  qed
qed fact

lemma same_engine_refl [simp]: "same_engine p p"
  by (simp add: same_engine_def)

lemma same_engine_sym: "same_engine p q \<Longrightarrow> same_engine q p"
  by (simp add: same_engine_def)

lemma same_engine_trans: "same_engine p q \<Longrightarrow> same_engine q r \<Longrightarrow> same_engine p r"
  by (simp add: same_engine_def)

lemma same_outcome_refl [simp]: "same_outcome r r"
  by (simp add: same_outcome_def split: sum.splits)

lemma same_outcome_sym: "same_outcome r r' \<Longrightarrow> same_outcome r' r"
  by (auto simp: same_outcome_def same_engine_sym split: sum.splits)

lemma same_outcome_trans: "same_outcome a b \<Longrightarrow> same_outcome b c \<Longrightarrow> same_outcome a c"
  by (auto simp: same_outcome_def split: sum.splits intro: same_engine_trans)

lemma same_run_refl: "a \<noteq> None \<Longrightarrow> same_run a a"
  by (auto simp: same_run_def split: option.splits)

lemma same_run_sym: "same_run a b \<Longrightarrow> same_run b a"
  by (auto simp: same_run_def same_outcome_sym split: option.splits)

lemma same_run_trans: "same_run a b \<Longrightarrow> same_run b c \<Longrightarrow> same_run a c"
  by (auto simp: same_run_def split: option.splits intro: same_outcome_trans)

lemma same_run_push: "same_run a b \<Longrightarrow> same_run (push fr a) (push fr b)"
  by (auto simp: same_run_def push_def split: option.splits)

lemma same_run_Some: "same_run a b \<Longrightarrow> a \<noteq> None \<and> b \<noteq> None"
  by (auto simp: same_run_def split: option.splits)

lemma Write_loop_unfold:
  "Write_loop lib p =
     (if HandlerSize p \<le> Size p then
        (case Write_cut p of
           Inl e \<Rightarrow> Some ([], Inl e)
         | Inr (fr, p2) \<Rightarrow>
            (case call_Handler lib p2 fr of
               Inl e \<Rightarrow> Some ([fr], Inl e)
             | Inr p' \<Rightarrow> push fr (Write_loop lib p')))
      else Some ([], Inr p))"
  by (subst Write_loop.simps) (simp add: push_def split: prod.splits sum.splits)

lemma Write_cut_demanding:
  assumes "demanding p" and "HandlerSize p \<le> Size p"
  shows "Write_cut p = Inr (frame p, cut p)"
  using assms by (simp add: Write_cut_def Let_def demanding_def cut_def frame_def)

lemma core_cut [simp]: "core (cut p) = core p"
  by (simp add: core_def cut_def)

lemma core_enqueue [simp]: "core (enqueue p ys) = core p"
  by (simp add: core_def enqueue_def)

lemma core_eq_fields:
  assumes "core p = core q"
  shows "HandlerSize p = HandlerSize q" and "Handler p = Handler q"
  using arg_cong [OF assms, of HandlerSize] arg_cong [OF assms, of Handler] by simp_all

text \<open>Handlers on two processors with the same core.\<close>

lemma call_Handler_same_core:
  assumes "core p = core q"
  shows "(case call_Handler lib p fr of
            Inl e \<Rightarrow> call_Handler lib q fr = Inl e
          | Inr p' \<Rightarrow> (\<exists>q'. call_Handler lib q fr = Inr q' \<and> core p' = core q'))"
proof -
  have "map_sum id core (call_Handler lib p fr) = map_sum id core (call_Handler lib q fr)"
    using call_Handler_core [of lib p fr] call_Handler_core [of lib q fr] assms by simp
  then show ?thesis
    by (cases "call_Handler lib p fr"; cases "call_Handler lib q fr") simp_all
qed

lemma demanding_after:
  assumes "demanding p" and "HandlerSize p \<le> Size p" and "call_Handler lib (cut p) fr = Inr p'"
  shows "demanding p' \<and> nat (Size p') < nat (Size p) \<and> Data p' = Data (cut p) \<and> Size p' = Size (cut p)"
proof -
  from call_Handler_buffer [OF assms(3)]
  have b: "Data p' = Data (cut p)" "Size p' = Size (cut p)"
    and h: "1 \<le> HandlerSize (cut p) \<longrightarrow> 1 \<le> HandlerSize p'" by simp_all
  have "1 \<le> HandlerSize (cut p)" using assms(1) by (simp add: demanding_def cut_def)
  then have "1 \<le> HandlerSize p'" using h by simp
  moreover have "Size (cut p) = int (length (concat (Data (cut p))))"
    using assms(1,2) by (auto simp: demanding_def cut_def)
  moreover have "nat (Size (cut p)) < nat (Size p)"
    using assms(1,2) by (auto simp: demanding_def cut_def)
  ultimately show ?thesis using b by (simp add: demanding_def)
qed

lemma same_engine_demanding:
  "same_engine p q \<Longrightarrow> demanding p \<Longrightarrow> demanding q"
  by (auto simp: same_engine_def demanding_def dest: core_eq_fields)

lemma same_engine_step:
  assumes "same_engine p q"
  shows "frame p = frame q" and "core (cut p) = core (cut q)"
    and "Data (cut p) = Data (cut q)" and "Size (cut p) = Size (cut q)"
    and "HandlerSize p = HandlerSize q" and "Size p = Size q"
proof -
  have h: "HandlerSize p = HandlerSize q"
    using assms core_eq_fields(1) [of p q] by (simp add: same_engine_def)
  show "core (cut p) = core (cut q)" using assms by (simp add: same_engine_def)
  show "frame p = frame q" "Data (cut p) = Data (cut q)" "Size (cut p) = Size (cut q)"
    "HandlerSize p = HandlerSize q" "Size p = Size q"
    using assms h by (simp_all add: same_engine_def frame_def cut_def)
qed

lemma Write_loop_same:
  assumes "demanding p" and "same_engine p q"
  shows "same_run (Write_loop lib p) (Write_loop lib q)"
  using assms
proof (induction "nat (Size p)" arbitrary: p q rule: less_induct)
  case less
  note eq = same_engine_step [OF less.prems(2)]
  have dq: "demanding q" using less.prems by (rule same_engine_demanding [rotated])
  show ?case
  proof (cases "HandlerSize p \<le> Size p")
    case False
    then show ?thesis
      using less.prems(2) eq(5,6)
      by (subst (1 2) Write_loop_unfold) (simp add: same_run_def same_outcome_def)
  next
    case True
    then have Tq: "HandlerSize q \<le> Size q" using eq(5,6) by simp
    note sp = Write_cut_demanding [OF less.prems(1) True]
    note sq = Write_cut_demanding [OF dq Tq]
    show ?thesis
    proof (cases "call_Handler lib (cut p) (frame p)")
      case (Inl e)
      then have "call_Handler lib (cut q) (frame q) = Inl e"
        using call_Handler_same_core [OF eq(2), of lib "frame p"] eq(1) by simp
      then show ?thesis
        using Inl True Tq sp sq eq(1)
        by (subst (1 2) Write_loop_unfold) (simp add: same_run_def)
    next
      case (Inr p')
      then obtain q' where q': "call_Handler lib (cut q) (frame q) = Inr q'" and c: "core p' = core q'"
        using call_Handler_same_core [OF eq(2), of lib "frame p"] eq(1) by auto
      from demanding_after [OF less.prems(1) True Inr]
      have dp': "demanding p'" and lt: "nat (Size p') < nat (Size p)"
        and bp: "Data p' = Data (cut p)" "Size p' = Size (cut p)" by simp_all
      from demanding_after [OF dq Tq q']
      have bq: "Data q' = Data (cut q)" "Size q' = Size (cut q)" by simp_all
      have "same_engine p' q'"
        using c bp bq eq(3,4) by (simp add: same_engine_def)
      from less.hyps [OF lt dp' this]
      have "same_run (push (frame p) (Write_loop lib p')) (push (frame p) (Write_loop lib q'))"
        by (rule same_run_push)
      then show ?thesis
        using Inr q' True Tq sp sq eq(1)
        by (subst (1 2) Write_loop_unfold) simp
    qed
  qed
qed

lemma Write_loop_returns: "demanding p \<Longrightarrow> Write_loop lib p \<noteq> None"
  using Write_loop_same [of p p lib] same_run_Some by simp

lemma Write_loop_idle:
  assumes "demanding p" and "Write_loop lib p = Some (frs, Inr p')"
  shows "idle p'"
  using assms
proof (induction "nat (Size p)" arbitrary: p frs rule: less_induct)
  case less
  show ?case
  proof (cases "HandlerSize p \<le> Size p")
    case False
    then have "p' = p" using less.prems(2) by (subst (asm) Write_loop_unfold) simp
    then show ?thesis using False less.prems(1) by (simp add: idle_def demanding_def)
  next
    case True
    note sp = Write_cut_demanding [OF less.prems(1) True]
    show ?thesis
    proof (cases "call_Handler lib (cut p) (frame p)")
      case (Inl e)
      then show ?thesis using less.prems(2) True sp by (subst (asm) Write_loop_unfold) simp
    next
      case (Inr q)
      from demanding_after [OF less.prems(1) True Inr]
      have dq: "demanding q" and lt: "nat (Size q) < nat (Size p)" by simp_all
      obtain frs' where "Write_loop lib q = Some (frs', Inr p')"
        using less.prems(2) True sp Inr
        by (subst (asm) Write_loop_unfold) (auto simp: push_def bind_eq_Some_conv)
      from less.hyps [OF lt dq this] show ?thesis .
    qed
  qed
qed

lemma then_run_push: "then_run (push fr m) f = push fr (then_run m f)"
proof (cases m)
  case None
  then show ?thesis by (simp add: then_run_def push_def)
next
  case (Some x)
  obtain frs r where x: "x = (frs, r)" by (cases x)
  show ?thesis
  proof (cases r)
    case (Inl e)
    then show ?thesis using Some x by (simp add: then_run_def push_def)
  next
    case (Inr p')
    then show ?thesis using Some x
      by (cases "f p'") (auto simp: then_run_def push_def)
  qed
qed

lemma then_run_return [simp]: "then_run (Some ([], Inr p)) f = f p"
  by (cases "f p") (auto simp: then_run_def)

lemma then_run_abort [simp]: "then_run (Some (frs, Inl e)) f = Some (frs, Inl e)"
  by (simp add: then_run_def)

lemma then_run_cong:
  assumes "m \<noteq> None" and "\<And>frs p'. m = Some (frs, Inr p') \<Longrightarrow> same_run (f p') (g p')"
  shows "same_run (then_run m f) (then_run m g)"
proof -
  obtain frs r where m: "m = Some (frs, r)" using assms(1) by (cases m) auto
  show ?thesis
  proof (cases r)
    case (Inl e)
    then show ?thesis using m by (simp add: same_run_def)
  next
    case (Inr p')
    then have "same_run (f p') (g p')" using assms(2) m by simp
    then show ?thesis using m Inr
      by (auto simp: then_run_def same_run_def split: option.splits)
  qed
qed

lemma demanding_enqueue: "demanding p \<Longrightarrow> demanding (enqueue p ys)"
  by (simp add: demanding_def enqueue_def)

lemma enqueue_fields [simp]:
  "HandlerSize (enqueue p ys) = HandlerSize p"
  "Size (enqueue p ys) = Size p + int (length ys)"
  "concat (Data (enqueue p ys)) = concat (Data p) @ ys"
  by (simp_all add: enqueue_def)

lemma Write_loop_enqueue:
  assumes "demanding p"
  shows "same_run (then_run (Write_loop lib p) (\<lambda>p'. Write_loop lib (enqueue p' ys)))
                  (Write_loop lib (enqueue p ys))"
  using assms
proof (induction "nat (Size p)" arbitrary: p rule: less_induct)
  case less
  have de: "demanding (enqueue p ys)" using less.prems by (rule demanding_enqueue)
  show ?case
  proof (cases "HandlerSize p \<le> Size p")
    case False
    then have "Write_loop lib p = Some ([], Inr p)" by (subst Write_loop_unfold) simp
    then show ?thesis using Write_loop_returns [OF de, of lib] by (simp add: same_run_refl)
  next
    case True
    then have Te: "HandlerSize (enqueue p ys) \<le> Size (enqueue p ys)" by simp
    note sp = Write_cut_demanding [OF less.prems True]
    note se = Write_cut_demanding [OF de Te]
    have len: "nat (HandlerSize p) \<le> length (concat (Data p))"
      using less.prems True by (simp add: demanding_def)
    have fr: "frame (enqueue p ys) = frame p" using len by (simp add: frame_def)
    have co: "core (cut p) = core (cut (enqueue p ys))" by simp
    show ?thesis
    proof (cases "call_Handler lib (cut p) (frame p)")
      case (Inl e)
      then have "call_Handler lib (cut (enqueue p ys)) (frame p) = Inl e"
        using call_Handler_same_core [OF co, of lib "frame p"] by simp
      then show ?thesis
        using Inl True Te sp se fr
        by (subst (1 3) Write_loop_unfold) (simp add: same_run_def)
    next
      case (Inr p')
      then obtain q' where q': "call_Handler lib (cut (enqueue p ys)) (frame p) = Inr q'"
        and c: "core p' = core q'"
        using call_Handler_same_core [OF co, of lib "frame p"] by auto
      from demanding_after [OF less.prems True Inr]
      have dp': "demanding p'" and lt: "nat (Size p') < nat (Size p)"
        and bp: "Data p' = Data (cut p)" "Size p' = Size (cut p)" by simp_all
      from demanding_after [OF de Te, of lib "frame p" q'] q'
      have bq: "Data q' = Data (cut (enqueue p ys))" "Size q' = Size (cut (enqueue p ys))"
        by simp_all
      have "concat (Data (cut p)) @ ys = concat (Data (cut (enqueue p ys)))"
        using len less.prems True by (auto simp: cut_def demanding_def)
      then have se': "same_engine (enqueue p' ys) q'"
        using c bp bq by (simp add: same_engine_def cut_def)
      have "same_run (then_run (Write_loop lib p') (\<lambda>p'. Write_loop lib (enqueue p' ys)))
                  (Write_loop lib (enqueue p' ys))"
        by (rule less.hyps [OF lt dp'])
      moreover have "same_run (Write_loop lib (enqueue p' ys)) (Write_loop lib q')"
        by (rule Write_loop_same [OF demanding_enqueue [OF dp'] se'])
      ultimately have "same_run (then_run (Write_loop lib p') (\<lambda>p'. Write_loop lib (enqueue p' ys)))
                  (Write_loop lib q')"
        by (rule same_run_trans)
      then have "same_run (push (frame p) (then_run (Write_loop lib p') (\<lambda>p'. Write_loop lib (enqueue p' ys))))
                  (push (frame p) (Write_loop lib q'))"
        by (rule same_run_push)
      then show ?thesis
        using Inr q' True Te sp se fr
        by (subst (1 3) Write_loop_unfold) (simp add: then_run_push)
    qed
  qed
qed

lemma Write_enqueue: "Write lib p data = Write_loop lib (enqueue p data)"
  by (simp add: Write_def enqueue_def)

lemma idle_demanding: "idle p \<Longrightarrow> demanding (enqueue p ys)"
  by (auto simp: idle_def demanding_def enqueue_def)

text \<open>Every processor between two calls of \<open>Write\<close> is idle: after \<open>Start\<close>, and after a call that returns.\<close>

lemma idle_Start: "idle (Start lib hash NewProcessor)"
  by (simp add: idle_def Start_def handleHandshake_def process_def send_output_def
      NewProcessor_def)

lemma idle_Write:
  assumes "idle p" and "Write lib p data = Some (frs, Inr p')"
  shows "idle p'"
  using Write_loop_idle [OF idle_demanding [OF assms(1)], of lib data frs p'] assms(2)
  by (simp add: Write_enqueue)

lemma feed_as_one:
  assumes "idle p"
  shows "same_run (feed lib p cs) (Write lib p (concat cs))"
  using assms
proof (induction cs arbitrary: p)
  case Nil
  then have "Write lib p [] = Some ([], Inr (enqueue p []))"
    unfolding Write_enqueue by (subst Write_loop_unfold) (simp add: idle_def)
  then show ?case
    by (simp add: same_run_def same_outcome_def same_engine_def)
next
  case (Cons c cs)
  have d: "demanding (enqueue p c)" using Cons.prems by (rule idle_demanding)
  have "same_run (then_run (Write lib p c) (\<lambda>p'. feed lib p' cs))
                 (then_run (Write lib p c) (\<lambda>p'. Write lib p' (concat cs)))"
  proof (rule then_run_cong)
    show "Write lib p c \<noteq> None" unfolding Write_enqueue by (rule Write_loop_returns [OF d])
    fix frs p' assume "Write lib p c = Some (frs, Inr p')"
    then have "idle p'" unfolding Write_enqueue by (rule Write_loop_idle [OF d])
    then show "same_run (feed lib p' cs) (Write lib p' (concat cs))" by (rule Cons.IH)
  qed
  moreover have "same_run (then_run (Write lib p c) (\<lambda>p'. Write lib p' (concat cs)))
                 (Write_loop lib (enqueue (enqueue p c) (concat cs)))"
    unfolding Write_enqueue by (rule Write_loop_enqueue [OF d])
  moreover have "same_run (Write_loop lib (enqueue (enqueue p c) (concat cs)))
                 (Write lib p (concat (c # cs)))"
    unfolding Write_enqueue
    by (rule Write_loop_same [OF demanding_enqueue [OF d]]) (simp add: same_engine_def)
  ultimately show ?case
    unfolding feed.simps by (blast intro: same_run_trans)
qed




section \<open>After the terminal error\<close>

lemma Write_closed_engine:
  "Write ref_lib closed_engine [0, 0, 0, 5]
     = Some ([[0, 0, 0, 5]],
             Inr (closed_engine\<lparr>Data := [], Size := 0, Handler := Some H_Body, HandlerSize := 5\<rparr>))"
  by (simp add: Write_def closed_engine_def LiveProcessor_def NewProcessor_def Write_loop.simps
      Write_cut_def call_Handler_def handleHead_def process_def)

text \<open>
  C9 (after the Error event no fed bytes make a handler run, emit an event or change the
  state). As amended: once \<open>End\<close> has closed the event stream, a call of \<open>Write\<close> that
  returns has sent no event and no message and has changed nothing but the buffer
  (\<open>Data\<close>, \<open>Size\<close>) and the frame demand (\<open>Handler\<close>, \<open>HandlerSize\<close>); frames are still
  cut and handed to the installed handler.
\<close>

theorem Write_after_close:
  assumes "event_chan p = ChanClosed" and "Write lib p data = Some (frs, Inr p')"
  shows "p' = p\<lparr>Data := Data p', Size := Size p', Handler := Handler p',
                 HandlerSize := HandlerSize p'\<rparr>"
  using Write_loop_closed [of lib "enqueue p data" "(frs, Inr p')"] assms
  by (simp add: Write_enqueue enqueue_def)

theorem Write_after_close_witness:
  "closed_engine\<lparr>Data := [], Size := 0, Handler := Some H_Body, HandlerSize := 5\<rparr>
     = closed_engine\<lparr>Data := [], Size := 0, Handler := Some H_Body, HandlerSize := 5\<rparr>
   \<and> event_chan closed_engine = ChanClosed
   \<and> Write ref_lib closed_engine [0, 0, 0, 5]
       = Some ([[0, 0, 0, 5]],
               Inr (closed_engine\<lparr>Data := [], Size := 0, Handler := Some H_Body,
                                   HandlerSize := 5\<rparr>))"
  using Write_after_close [of closed_engine ref_lib "[0, 0, 0, 5]" "[[0, 0, 0, 5]]"
      "closed_engine\<lparr>Data := [], Size := 0, Handler := Some H_Body, HandlerSize := 5\<rparr>"]
    Write_closed_engine
  by (simp add: closed_engine_def)

text \<open>
  A body that does not decode ends in the Error event; the four bytes fed next are cut as a
  frame and handed to \<open>handleHead\<close>, which installs a new demand.
\<close>

theorem Write_after_close_counterexample:
  "observe_run (feed ref_lib (Start ref_lib (replicate 20 7) LiveProcessor)
       [peer_handshake @ [0, 0, 0, 3, 0, 0, 120]])
     = Some ([[19], bytes_of BtProtocol @ BtReserved @ replicate 40 0, [0, 0, 0, 3], [0, 0, 120]],
             Inr ([EventHandshake, EventError], ChanClosed, Some H_Head, 4, 0))
   \<and> observe_run (feed ref_lib (Start ref_lib (replicate 20 7) LiveProcessor)
       [peer_handshake @ [0, 0, 0, 3, 0, 0, 120], [0, 0, 0, 5]])
     = Some ([[19], bytes_of BtProtocol @ BtReserved @ replicate 40 0, [0, 0, 0, 3], [0, 0, 120],
              [0, 0, 0, 5]],
             Inr ([EventHandshake, EventError], ChanClosed, Some H_Body, 5, 0))"
  by (simp add: observe_run_def observe_result_def observe_def filled_def then_run_def Write_def
      Start_def LiveProcessor_def NewProcessor_def handleHandshake_def process_def send_output_def
      peer_handshake_def bytes_of_def BtProtocol_def BtReserved_def Write_loop.simps
      Write_cut_def call_Handler_def handshakeLength_def handshakeBody_def send_event_def
      close_event_def End_def seq_def handleHead_def handleBody_def BtExtendedID_def
      handleExtended_def ref_lib_def ref_DecodeBytes_def plain_event_def NewErrorEvent_def)

end
